theory Spec2Isabelle
  imports Complex_Main
begin

section \<open>Common ground: numbers, vectors, failures\<close>

text \<open>
  The components compute with Python floats and numpy arrays of floats.  Throughout this
  development a float is a real number and every arithmetic operation is exact: rounding,
  overflow and underflow are not part of the model.  Where numpy would produce \<open>nan\<close> or
  \<open>inf\<close> (a value that is no real number) the model says so with the outcome
  \<open>NonFinite\<close>; where Python raises, the model returns the exception as a value.
\<close>

datatype failure = ValueError | ZeroDivisionError | IndexError | KeyError | NonFinite

text \<open>A numpy array of three floats: a point or a direction.\<close>

type_synonym vec3 = "real \<times> real \<times> real"

fun vadd :: "vec3 \<Rightarrow> vec3 \<Rightarrow> vec3" where
  "vadd (x1, y1, z1) (x2, y2, z2) = (x1 + x2, y1 + y2, z1 + z2)"

fun vsub :: "vec3 \<Rightarrow> vec3 \<Rightarrow> vec3" where
  "vsub (x1, y1, z1) (x2, y2, z2) = (x1 - x2, y1 - y2, z1 - z2)"

fun smul :: "real \<Rightarrow> vec3 \<Rightarrow> vec3" where
  "smul k (x, y, z) = (k * x, k * y, k * z)"

fun sdiv :: "vec3 \<Rightarrow> real \<Rightarrow> vec3" where
  "sdiv (x, y, z) k = (x / k, y / k, z / k)"

fun dot :: "vec3 \<Rightarrow> vec3 \<Rightarrow> real" where
  "dot (x1, y1, z1) (x2, y2, z2) = x1 * x2 + y1 * y2 + z1 * z2"

fun cross :: "vec3 \<Rightarrow> vec3 \<Rightarrow> vec3" where
  "cross (x1, y1, z1) (x2, y2, z2) =
     (y1 * z2 - z1 * y2, z1 * x2 - x1 * z2, x1 * y2 - y1 * x2)"

fun vnorm :: "vec3 \<Rightarrow> real" where
  "vnorm (x, y, z) = sqrt (x * x + y * y + z * z)"

definition RIGHT :: vec3 where "RIGHT = (1, 0, 0)"
definition LEFT :: vec3 where "LEFT = (-1, 0, 0)"
definition UP :: vec3 where "UP = (0, 1, 0)"

definition DEGREES :: real where "DEGREES = 2 * pi / 360"

section \<open>StandardLine (analytic\_line.py)\<close>

text \<open>
  A point argument is a list of two or of three coordinates; \<open>None\<close> selects the
  default.  A list of two is extended by a zero, as \<open>__init__\<close> does.
\<close>

datatype point_arg = P2 real real | P3 real real real

fun to_vec3 :: "point_arg \<Rightarrow> vec3" where
  "to_vec3 (P2 x y) = (x, y, 0)"
| "to_vec3 (P3 x y z) = (x, y, z)"

record standard_line =
  ln_p1 :: vec3
  ln_p2 :: vec3
  ln_direction :: vec3
  ln_is_vertical :: bool
  ln_is_horizontal :: bool
  ln_is_through_origin :: bool
  ln_slope :: real
  ln_y_intercept :: real
  ln_coef_A :: real
  ln_coef_B :: real
  ln_coef_C :: real
  ln_x_intercept :: "real option"
  ln_y_intercept_point :: "real option"
  ln_line_start :: vec3
  ln_line_end :: vec3

definition StandardLine_init :: "point_arg option \<Rightarrow> point_arg option \<Rightarrow> real \<Rightarrow> standard_line" where
  "StandardLine_init point1 point2 len =
     (let q1 = (case point1 of None \<Rightarrow> (0, 0, 0) | Some p \<Rightarrow> to_vec3 p);
          q2 = (case point2 of None \<Rightarrow> (len, 0, 0) | Some p \<Rightarrow> to_vec3 p);
          delta = vsub q2 q1;
          direction_norm = vnorm delta;
          dir = (if direction_norm < 0.001 then RIGHT else sdiv delta direction_norm);
          vert = (\<bar>fst delta\<bar> < 0.001);
          horiz = (\<bar>fst (snd delta)\<bar> < 0.001);
          thr = (\<bar>fst q1\<bar> \<le> 0.001 \<and> \<bar>fst (snd q1)\<bar> \<le> 0.001 \<and> \<bar>snd (snd q1)\<bar> \<le> 0.001);
          k = (if \<not> vert \<and> \<bar>fst delta\<bar> > 0.001 then fst (snd delta) / fst delta else 0);
          yi = (if \<not> vert \<and> \<bar>fst delta\<bar> > 0.001 then fst (snd q1) - k * fst q1 else 0);
          A = (if vert then 1 else if horiz then 0 else k);
          B = (if vert then 0 else if horiz then 1 else -1);
          C = (if vert then - fst q1 else if horiz then - fst (snd q1) else yi);
          yip = (if \<bar>B\<bar> > 0.001 then Some (- C / B) else None);
          xi = (if \<bar>A\<bar> > 0.001 then Some (- C / A) else None);
          center = sdiv (vadd q1 q2) 2;
          actual_length = min len direction_norm
      in \<lparr> ln_p1 = q1, ln_p2 = q2, ln_direction = dir, ln_is_vertical = vert, ln_is_horizontal = horiz,
           ln_is_through_origin = thr, ln_slope = k, ln_y_intercept = yi,
           ln_coef_A = A, ln_coef_B = B, ln_coef_C = C,
           ln_x_intercept = xi, ln_y_intercept_point = yip,
           ln_line_start = vsub center (smul (actual_length / 2) dir),
           ln_line_end = vadd center (smul (actual_length / 2) dir) \<rparr>)"

section \<open>Conic sections (analytic\_geometry.py)\<close>

subsection \<open>StandardEllipse\<close>





subsection \<open>StandardHyperbola\<close>










subsection \<open>StandardParabola\<close>

text \<open>
  \<open>str.upper\<close> on the letters of the ASCII alphabet; every other character is left as
  it is.  (Strings here are byte strings; Python's case mapping of characters outside
  ASCII is not modelled.)
\<close>

definition upper_char :: "char \<Rightarrow> char" where
  "upper_char ch =
     (case map_of (zip ''abcdefghijklmnopqrstuvwxyz'' ''ABCDEFGHIJKLMNOPQRSTUVWXYZ'') ch of
        Some u \<Rightarrow> u
      | None \<Rightarrow> ch)"

definition upper :: "string \<Rightarrow> string" where
  "upper s = map upper_char s"





section \<open>Solids of revolution in oblique projection\<close>

subsection \<open>ConeOblique (cone.py)\<close>

text \<open>
  The tangent-point offsets of \<open>__init__\<close>.  The guard is \<open>h <= b + 0.001\<close>.  In the
  other branch \<open>(b**2) / h\<close> is a division of Python floats (ZeroDivisionError when
  \<open>h\<close> is zero) and \<open>np.sqrt\<close> of a negative number is \<open>nan\<close>.
\<close>

definition np_sqrt :: "real \<Rightarrow> failure + real" where
  "np_sqrt x = (if x < 0 then Inl NonFinite else Inr (sqrt x))"

definition cone_tangent_offsets :: "real \<Rightarrow> real \<Rightarrow> real \<Rightarrow> failure + (real \<times> real)" where
  "cone_tangent_offsets radius height skew_factor =
     (let a = radius; b = radius * skew_factor; h = height in
      if h \<le> b + 0.001 then Inr (a, 0)
      else if h = 0 then Inl ZeroDivisionError
      else case np_sqrt (1 - b ^ 2 / h ^ 2) of
        Inl e \<Rightarrow> Inl e
      | Inr r \<Rightarrow> Inr (a * r, b ^ 2 / h))"

record cone_oblique =
  cone_p_center :: vec3
  cone_p_left :: vec3
  cone_p_right :: vec3
  cone_p_apex :: vec3
  cone_p_tangent_left :: vec3
  cone_p_tangent_right :: vec3

definition ConeOblique_init :: "real \<Rightarrow> real \<Rightarrow> real \<Rightarrow> vec3 \<Rightarrow> failure + cone_oblique" where
  "ConeOblique_init radius height skew_factor center =
     (case cone_tangent_offsets radius height skew_factor of
        Inl e \<Rightarrow> Inl e
      | Inr (tangent_x_offset, tangent_y_offset) \<Rightarrow>
          Inr \<lparr> cone_p_center = center,
                cone_p_left = vadd center (smul radius LEFT),
                cone_p_right = vadd center (smul radius RIGHT),
                cone_p_apex = vadd center (smul height UP),
                cone_p_tangent_left =
                  vadd (vadd center (smul tangent_x_offset LEFT)) (smul tangent_y_offset UP),
                cone_p_tangent_right =
                  vadd (vadd center (smul tangent_x_offset RIGHT)) (smul tangent_y_offset UP) \<rparr>)"

subsection \<open>SphereOblique (sphere.py)\<close>

text \<open>
  The intersection of the X axis with the equator ellipse, from \<open>_create_axes\<close>.
  \<open>np.tan\<close> has no real value where the cosine vanishes, and the quotient is \<open>inf\<close> or
  \<open>nan\<close> when the root is zero; both are \<open>NonFinite\<close> here.  The result is the point
  stored as \<open>p_x_intersect\<close>.
\<close>

definition np_tan :: "real \<Rightarrow> failure + real" where
  "np_tan x = (if cos x = 0 then Inl NonFinite else Inr (tan x))"

definition sphere_x_intersect :: "real \<Rightarrow> real \<Rightarrow> real \<Rightarrow> vec3 \<Rightarrow> failure + vec3" where
  "sphere_x_intersect radius skew_factor x_axis_angle center =
     (case np_tan x_axis_angle of
        Inl e \<Rightarrow> Inl e
      | Inr k \<Rightarrow>
          let a = radius; b = radius * skew_factor in
          (case np_sqrt (b ^ 2 + a ^ 2 * k ^ 2) of
             Inl e \<Rightarrow> Inl e
           | Inr d \<Rightarrow>
               if d = 0 then Inl NonFinite
               else let x_intersect = - (a * b) / d;
                        y_intersect = k * x_intersect
                    in Inr (vadd center (x_intersect, y_intersect, 0))))"

section \<open>PolyhedronBase (solid\_base.py)\<close>

text \<open>Python's list indexing: a negative index counts from the end, out of range raises.\<close>

definition py_get :: "'a list \<Rightarrow> int \<Rightarrow> failure + 'a" where
  "py_get xs i =
     (if 0 \<le> i
      then (if i < int (length xs) then Inr (xs ! nat i) else Inl IndexError)
      else (if - int (length xs) \<le> i then Inr (xs ! nat (int (length xs) + i))
            else Inl IndexError))"

text \<open>
  An edge is the pair of its end points' indices, the smaller one first.  A line is the
  segment the rendering engine draws for it, with its stroke style.
\<close>

type_synonym edge = "int \<times> int"

record line =
  l_start :: vec3
  l_end :: vec3
  l_stroke_color :: string
  l_stroke_opacity :: real
  l_stroke_width :: real

text \<open>
  The state of a polyhedron.  \<open>obj_center\<close> is what the rendering engine's
  \<open>get_center()\<close> returns for the group; the source does not compute it, so it is a
  component of the state that no operation here changes.
\<close>

record polyhedron =
  vertices_local :: "vec3 list"
  n_vertices :: nat
  faces :: "int list list"
  n_faces :: nat
  edge_color :: string
  vertex_color :: string
  dashed_color :: string
  stroke_width :: real
  edges :: "edge list"
  edge_to_faces :: "edge \<rightharpoonup> nat list"
  edge_objects :: "edge \<rightharpoonup> line"
  vertex_dots :: "vec3 list"
  obj_center :: vec3

subsection \<open>\_build\_edge\_topology\<close>

definition sorted_edge :: "int \<Rightarrow> int \<Rightarrow> edge" where
  "sorted_edge v1 v2 = (if v1 > v2 then (v2, v1) else (v1, v2))"

text \<open>The edges of one face: \<open>(face[i], face[(i + 1) % n])\<close> for \<open>i\<close> in \<open>range(n)\<close>.\<close>

definition face_edges :: "int list \<Rightarrow> edge list" where
  "face_edges face =
     map (\<lambda>i. sorted_edge (face ! i) (face ! ((i + 1) mod length face))) [0..<length face]"

text \<open>
  One step of the inner loop: the edge joins the set, and the face index is appended to
  the edge's list of faces.  The set of edges is kept as a list without repetition, in the
  order of first insertion; Python's \<open>list(edge_set)\<close> may order it differently, and
  nothing below depends on the order.
\<close>

definition add_edge :: "nat \<Rightarrow> edge \<Rightarrow> edge list \<times> (edge \<rightharpoonup> nat list) \<Rightarrow> edge list \<times> (edge \<rightharpoonup> nat list)" where
  "add_edge face_idx e t =
     (case t of (es, m) \<Rightarrow>
        (if e \<in> set es then es else es @ [e],
         m(e \<mapsto> (case m e of None \<Rightarrow> [] | Some fs \<Rightarrow> fs) @ [face_idx])))"

fun build_faces :: "nat \<Rightarrow> int list list \<Rightarrow> edge list \<times> (edge \<rightharpoonup> nat list) \<Rightarrow> edge list \<times> (edge \<rightharpoonup> nat list)" where
  "build_faces face_idx [] t = t"
| "build_faces face_idx (face # rest) t =
     build_faces (Suc face_idx) rest (fold (add_edge face_idx) (face_edges face) t)"

definition build_edge_topology :: "int list list \<Rightarrow> edge list \<times> (edge \<rightharpoonup> nat list)" where
  "build_edge_topology fcs = build_faces 0 fcs ([], Map.empty)"

text \<open>The faces recorded for an edge, as a set.\<close>

abbreviation connected :: "(edge \<rightharpoonup> nat list) \<Rightarrow> edge \<Rightarrow> nat set" where
  "connected m e \<equiv> (case m e of None \<Rightarrow> {} | Some fs \<Rightarrow> set fs)"

subsection \<open>\_create\_edges\<close>

fun create_edges :: "vec3 list \<Rightarrow> string \<Rightarrow> real \<Rightarrow> edge list \<Rightarrow> (edge \<rightharpoonup> line) \<Rightarrow> failure + (edge \<rightharpoonup> line)" where
  "create_edges vs col w [] objs = Inr objs"
| "create_edges vs col w (e # es) objs =
     (case py_get vs (fst e) of
        Inl err \<Rightarrow> Inl err
      | Inr start \<Rightarrow>
          (case py_get vs (snd e) of
             Inl err \<Rightarrow> Inl err
           | Inr end \<Rightarrow>
               create_edges vs col w es
                 (objs(e \<mapsto> \<lparr> l_start = start, l_end = end, l_stroke_color = col,
                               l_stroke_opacity = 1, l_stroke_width = w \<rparr>))))"

subsection \<open>\_\_init\_\_\<close>

definition PolyhedronBase_init ::
  "vec3 list \<Rightarrow> int list list \<Rightarrow> string \<Rightarrow> string \<Rightarrow> string \<Rightarrow> real \<Rightarrow> vec3 \<Rightarrow> failure + polyhedron" where
  "PolyhedronBase_init vs fcs edge_col vertex_col dashed_col width center =
     (case build_edge_topology fcs of (es, m) \<Rightarrow>
        (case create_edges vs edge_col width es Map.empty of
           Inl err \<Rightarrow> Inl err
         | Inr objs \<Rightarrow>
             Inr \<lparr> vertices_local = vs, n_vertices = length vs,
                   faces = fcs, n_faces = length fcs,
                   edge_color = edge_col, vertex_color = vertex_col,
                   dashed_color = dashed_col, stroke_width = width,
                   edges = es, edge_to_faces = m, edge_objects = objs,
                   vertex_dots = vs, obj_center = center \<rparr>))"

subsection \<open>Face normal, face centre, visibility\<close>

text \<open>
  \<open>_compute_face_normal\<close>: fewer than three vertices, or a cross product shorter than
  \<open>1e-6\<close>, give the fixed vector \<open>(0, 0, 1)\<close>.
\<close>

definition compute_face_normal :: "vec3 list \<Rightarrow> int list \<Rightarrow> failure + vec3" where
  "compute_face_normal vs face =
     (if length face < 3 then Inr (0, 0, 1)
      else case py_get vs (face ! 0) of
        Inl err \<Rightarrow> Inl err
      | Inr v0 \<Rightarrow>
          (case py_get vs (face ! 1) of
             Inl err \<Rightarrow> Inl err
           | Inr v1 \<Rightarrow>
               (case py_get vs (face ! 2) of
                  Inl err \<Rightarrow> Inl err
                | Inr v2 \<Rightarrow>
                    let normal = cross (vsub v1 v0) (vsub v2 v0);
                        norm = vnorm normal
                    in if norm < 1 / 10 ^ 6 then Inr (0, 0, 1) else Inr (sdiv normal norm))))"

text \<open>The loop \<open>center += vertices[idx]\<close>.\<close>

fun sum_vertices :: "vec3 list \<Rightarrow> int list \<Rightarrow> vec3 \<Rightarrow> failure + vec3" where
  "sum_vertices vs [] c = Inr c"
| "sum_vertices vs (idx # rest) c =
     (case py_get vs idx of
        Inl err \<Rightarrow> Inl err
      | Inr v \<Rightarrow> sum_vertices vs rest (vadd c v))"

text \<open>
  \<open>_compute_face_center\<close>.  For a face without vertices numpy divides the zero vector
  by zero: the result is \<open>nan\<close>.
\<close>

definition compute_face_center :: "vec3 list \<Rightarrow> int list \<Rightarrow> failure + vec3" where
  "compute_face_center vs face =
     (case sum_vertices vs face (0, 0, 0) of
        Inl err \<Rightarrow> Inl err
      | Inr c \<Rightarrow> if face = [] then Inl NonFinite else Inr (sdiv c (real (length face))))"

text \<open>The normalised vector from the camera to the face centre in world coordinates.\<close>

definition view_vector :: "vec3 \<Rightarrow> vec3 \<Rightarrow> vec3 \<Rightarrow> vec3" where
  "view_vector center face_center_local camera_position =
     (let face_center_world = vadd center face_center_local;
          v = vsub face_center_world camera_position
      in sdiv v (vnorm v + 1 / 10 ^ 6))"

text \<open>
  \<open>_is_face_visible\<close>.  (The first assignment to \<open>face_center_world\<close> in the source is
  overwritten before use, and a group has no points of its own, so its condition selects
  the local centre.)  With a \<open>nan\<close> face centre the dot product is \<open>nan\<close>, and
  \<open>nan < 0\<close> is false.
\<close>

definition is_face_visible :: "polyhedron \<Rightarrow> nat \<Rightarrow> vec3 \<Rightarrow> failure + bool" where
  "is_face_visible P face_idx camera_position =
     (case py_get (faces P) (int face_idx) of
        Inl err \<Rightarrow> Inl err
      | Inr face \<Rightarrow>
          (case compute_face_center (vertices_local P) face of
             Inl NonFinite \<Rightarrow>
               (case compute_face_normal (vertices_local P) face of
                  Inl err \<Rightarrow> Inl err
                | Inr normal \<Rightarrow> Inr False)
           | Inl err \<Rightarrow> Inl err
           | Inr face_center_local \<Rightarrow>
               (case compute_face_normal (vertices_local P) face of
                  Inl err \<Rightarrow> Inl err
                | Inr normal \<Rightarrow>
                    Inr (dot (view_vector (obj_center P) face_center_local camera_position)
                           normal < 0))))"

subsection \<open>update\_dashed\_lines\<close>

text \<open>\<open>get_camera_position\<close>: spherical coordinates \<open>r = 15\<close>, \<open>phi = 30\<close>, \<open>theta = -45\<close> degrees.\<close>

definition get_camera_position :: vec3 where
  "get_camera_position =
     (15 * sin (30 * DEGREES) * cos (-45 * DEGREES),
      15 * cos (30 * DEGREES),
      15 * sin (30 * DEGREES) * sin (-45 * DEGREES))"

text \<open>The first loop: the visibility of every face, in order.\<close>

fun face_visibility :: "polyhedron \<Rightarrow> vec3 \<Rightarrow> nat list \<Rightarrow> failure + bool list" where
  "face_visibility P cam [] = Inr []"
| "face_visibility P cam (face_idx # rest) =
     (case is_face_visible P face_idx cam of
        Inl err \<Rightarrow> Inl err
      | Inr visible \<Rightarrow>
          (case face_visibility P cam rest of
             Inl err \<Rightarrow> Inl err
           | Inr vis \<Rightarrow> Inr (visible # vis)))"

text \<open>\<open>all(not face_visibility[f] for f in connected_faces)\<close>, stopping at the first visible face.\<close>

fun all_faces_hidden :: "bool list \<Rightarrow> nat list \<Rightarrow> failure + bool" where
  "all_faces_hidden vis [] = Inr True"
| "all_faces_hidden vis (f # rest) =
     (if f < length vis
      then (if \<not> vis ! f then all_faces_hidden vis rest else Inr False)
      else Inl IndexError)"

text \<open>The two calls of \<open>set_style\<close>.\<close>

definition dashed_style :: "polyhedron \<Rightarrow> line \<Rightarrow> line" where
  "dashed_style P seg =
     seg\<lparr> l_stroke_color := dashed_color P, l_stroke_opacity := 0.5,
         l_stroke_width := stroke_width P * 0.7 \<rparr>"

definition solid_style :: "polyhedron \<Rightarrow> line \<Rightarrow> line" where
  "solid_style P seg =
     seg\<lparr> l_stroke_color := edge_color P, l_stroke_opacity := 1,
         l_stroke_width := stroke_width P \<rparr>"

text \<open>The second loop: every edge's line is restyled.\<close>

fun update_edges :: "polyhedron \<Rightarrow> bool list \<Rightarrow> edge list \<Rightarrow> (edge \<rightharpoonup> line) \<Rightarrow> failure + (edge \<rightharpoonup> line)" where
  "update_edges P vis [] objs = Inr objs"
| "update_edges P vis (e # es) objs =
     (case objs e of
        None \<Rightarrow> Inl KeyError
      | Some seg \<Rightarrow>
          (case edge_to_faces P e of
             None \<Rightarrow> Inl KeyError
           | Some connected_faces \<Rightarrow>
               (case all_faces_hidden vis connected_faces of
                  Inl err \<Rightarrow> Inl err
                | Inr hidden \<Rightarrow>
                    update_edges P vis es
                      (objs(e \<mapsto> (if hidden then dashed_style P seg else solid_style P seg))))))"

definition update_dashed_lines :: "polyhedron \<Rightarrow> vec3 option \<Rightarrow> failure + polyhedron" where
  "update_dashed_lines P camera_position =
     (let cam = (case camera_position of None \<Rightarrow> get_camera_position | Some c \<Rightarrow> c) in
      case face_visibility P cam [0..<n_faces P] of
        Inl err \<Rightarrow> Inl err
      | Inr vis \<Rightarrow>
          (case update_edges P vis (edges P) (edge_objects P) of
             Inl err \<Rightarrow> Inl err
           | Inr objs \<Rightarrow> Inr (P\<lparr> edge_objects := objs \<rparr>)))"

text \<open>How a line is drawn: in the hidden style or in the solid style of its polyhedron.\<close>

definition is_dashed :: "polyhedron \<Rightarrow> line \<Rightarrow> bool" where
  "is_dashed P seg \<longleftrightarrow>
     l_stroke_color seg = dashed_color P \<and> l_stroke_opacity seg = 0.5
     \<and> l_stroke_width seg = stroke_width P * 0.7"

definition is_solid :: "polyhedron \<Rightarrow> line \<Rightarrow> bool" where
  "is_solid P seg \<longleftrightarrow>
     l_stroke_color seg = edge_color P \<and> l_stroke_opacity seg = 1
     \<and> l_stroke_width seg = stroke_width P"

text \<open>
  The unit normal by the right-hand rule on three points: what \<open>_compute_face_normal\<close>
  returns for the first three vertices of a face when neither of its guards applies.
\<close>

definition right_hand_normal :: "vec3 \<Rightarrow> vec3 \<Rightarrow> vec3 \<Rightarrow> vec3" where
  "right_hand_normal v0 v1 v2 =
     (let c = cross (vsub v1 v0) (vsub v2 v0) in sdiv c (vnorm c))"

text \<open>
  The states a polyhedron can be in: constructed by \<open>__init__\<close>, then updated any
  number of times with any camera positions.
\<close>

inductive reachable :: "polyhedron \<Rightarrow> bool" where
  constructed: "PolyhedronBase_init vs fcs ec vc dc sw oc = Inr P \<Longrightarrow> reachable P"
| updated: "reachable P \<Longrightarrow> update_dashed_lines P cp = Inr P' \<Longrightarrow> reachable P'"

text \<open>
  The invariant of those states: the edge tables are those of the faces, every edge has
  its line, and every vertex index of every face is in range.
\<close>

abbreviation well_formed :: "polyhedron \<Rightarrow> bool" where
  "well_formed P \<equiv>
     build_edge_topology (faces P) = (edges P, edge_to_faces P)
     \<and> n_faces P = length (faces P)
     \<and> dom (edge_objects P) = set (edges P)
     \<and> (\<forall>face \<in> set (faces P). \<forall>i \<in> set face. \<exists>v. py_get (vertices_local P) i = Inr v)"

section \<open>CubeGeometry (cube.py)\<close>

definition WHITE :: string where "WHITE = ''#FFFFFF''"
definition YELLOW :: string where "YELLOW = ''#FFFF00''"
definition GRAY :: string where "GRAY = ''#888888''"

text \<open>The table \<open>standard_vertices\<close> and the list \<open>vertex_names\<close>.\<close>

definition standard_vertices :: "real \<Rightarrow> (string \<times> vec3) list" where
  "standard_vertices L =
     [(''A'', (0, 0, 0)), (''B'', (L, 0, 0)), (''D'', (0, L, 0)), (''C'', (L, L, 0)),
      (''A1'', (0, 0, L)), (''B1'', (L, 0, L)), (''D1'', (0, L, L)), (''C1'', (L, L, L))]"

definition vertex_names :: "string list" where
  "vertex_names = [''A'', ''B'', ''C'', ''D'', ''A1'', ''B1'', ''C1'', ''D1'']"

definition dict_get :: "('k \<times> 'v) list \<Rightarrow> 'k \<Rightarrow> failure + 'v" where
  "dict_get d k = (case map_of d k of None \<Rightarrow> Inl KeyError | Some v \<Rightarrow> Inr v)"

text \<open>The vertex list of \<open>__init__\<close>: every standard vertex shifted by \<open>offset\<close>.\<close>

definition cube_vertices :: "real \<Rightarrow> vec3 \<Rightarrow> vec3 list" where
  "cube_vertices L offset =
     map (\<lambda>name. vadd (the (map_of (standard_vertices L) name)) offset) vertex_names"

definition cube_faces :: "int list list" where
  "cube_faces =
     [[0, 1, 2, 3], [4, 5, 6, 7], [0, 1, 5, 4], [1, 2, 6, 5], [2, 3, 7, 6], [3, 0, 4, 7]]"

text \<open>The same faces with the bottom face reversed.\<close>

abbreviation corrected_cube_faces :: "int list list" where
  "corrected_cube_faces \<equiv>
     [[3, 2, 1, 0], [4, 5, 6, 7], [0, 1, 5, 4], [1, 2, 6, 5], [2, 3, 7, 6], [3, 0, 4, 7]]"

text \<open>The geometric centre: the sum of the vertices over their number.\<close>

definition vertices_center :: "vec3 list \<Rightarrow> failure + vec3" where
  "vertices_center vs =
     (if vs = [] then Inl NonFinite
      else Inr (sdiv (foldl vadd (0, 0, 0) vs) (real (length vs))))"

text \<open>
  The body of the loop of \<open>_correct_face_normals\<close> for one face: a face whose first
  three vertices give a cross product shorter than \<open>1e-6\<close> is kept as it is; otherwise it
  is reversed when its normal points towards the centre.
\<close>

definition correct_face :: "vec3 list \<Rightarrow> vec3 \<Rightarrow> int list \<Rightarrow> failure + int list" where
  "correct_face vs center face =
     (case py_get face 0 of Inl err \<Rightarrow> Inl err | Inr i0 \<Rightarrow>
      case py_get vs i0 of Inl err \<Rightarrow> Inl err | Inr v0 \<Rightarrow>
      case py_get face 1 of Inl err \<Rightarrow> Inl err | Inr i1 \<Rightarrow>
      case py_get vs i1 of Inl err \<Rightarrow> Inl err | Inr v1 \<Rightarrow>
      case py_get face 2 of Inl err \<Rightarrow> Inl err | Inr i2 \<Rightarrow>
      case py_get vs i2 of Inl err \<Rightarrow> Inl err | Inr v2 \<Rightarrow>
        let temp_normal = cross (vsub v1 v0) (vsub v2 v1);
            norm = vnorm temp_normal
        in if norm < 1 / 10 ^ 6 then Inr face
           else case sum_vertices vs face (0, 0, 0) of
             Inl err \<Rightarrow> Inl err
           | Inr summed \<Rightarrow>
               let face_center = sdiv summed (real (length face));
                   d = vsub face_center center;
                   check_vec = sdiv d (vnorm d + 1 / 10 ^ 6)
               in if dot (sdiv temp_normal norm) check_vec < 0 then Inr (rev face) else Inr face)"

fun correct_faces :: "vec3 list \<Rightarrow> vec3 \<Rightarrow> int list list \<Rightarrow> failure + int list list" where
  "correct_faces vs center [] = Inr []"
| "correct_faces vs center (face # rest) =
     (case correct_face vs center face of
        Inl err \<Rightarrow> Inl err
      | Inr corrected_face \<Rightarrow>
          (case correct_faces vs center rest of
             Inl err \<Rightarrow> Inl err
           | Inr corrected \<Rightarrow> Inr (corrected_face # corrected)))"

definition correct_face_normals :: "vec3 list \<Rightarrow> int list list \<Rightarrow> failure + int list list" where
  "correct_face_normals vs fcs =
     (case vertices_center vs of
        Inl err \<Rightarrow> Inl err
      | Inr center \<Rightarrow> correct_faces vs center fcs)"

text \<open>
  \<open>__init__\<close> with the default colours and stroke width: the origin's name is
  upper-cased and looked up, the vertices are shifted so that it lies at the origin, the
  faces are corrected and the base class is initialised.  Hidden anchors, axes and labels
  are left to the rendering engine.
\<close>

definition CubeGeometry_init :: "real \<Rightarrow> string \<Rightarrow> vec3 \<Rightarrow> failure + polyhedron" where
  "CubeGeometry_init side_length origin_point center =
     (case dict_get (standard_vertices side_length) (upper origin_point) of
        Inl err \<Rightarrow> Inl err
      | Inr origin \<Rightarrow>
          let vs = cube_vertices side_length (smul (-1) origin) in
          (case correct_face_normals vs cube_faces of
             Inl err \<Rightarrow> Inl err
           | Inr fcs \<Rightarrow> PolyhedronBase_init vs fcs WHITE YELLOW GRAY 4 center))"

text \<open>
  A face's normal points outward: the cross product of its first two consecutive edge
  vectors has a non-negative dot product with the direction from the centre of all the
  vertices to the centre of the face.  (The property \<open>_correct_face_normals\<close> is
  documented to establish; the vertex indices of a cube are not negative.)
\<close>

definition normal_points_outward :: "vec3 list \<Rightarrow> int list \<Rightarrow> bool" where
  "normal_points_outward vs face =
     (let v0 = vs ! nat (face ! 0); v1 = vs ! nat (face ! 1); v2 = vs ! nat (face ! 2);
          center = sdiv (foldl vadd (0, 0, 0) vs) (real (length vs));
          face_center = sdiv (foldl vadd (0, 0, 0) (map (\<lambda>i. vs ! nat i) face)) (real (length face))
      in 0 \<le> dot (cross (vsub v1 v0) (vsub v2 v1)) (vsub face_center center))"

section \<open>Properties of StandardLine\<close>

text \<open>
  Claim C8.  For the line through \<open>p1 = (-3, -2)\<close> and \<open>p2 = (3, 4)\<close> (the call of the
  repository's own test scene, with length 8) the derived slope is 1, the y-intercept is 1
  and the general-form coefficients are \<open>(A, B, C) = (1, -1, 1)\<close>; so they are a non-zero
  multiple of \<open>(1, -1, 1)\<close>.
\<close>

theorem StandardLine_two_points:
  "ln_slope (StandardLine_init (Some (P2 (-3) (-2))) (Some (P2 3 4)) 8) = 1
   \<and> ln_y_intercept (StandardLine_init (Some (P2 (-3) (-2))) (Some (P2 3 4)) 8) = 1
   \<and> (ln_coef_A (StandardLine_init (Some (P2 (-3) (-2))) (Some (P2 3 4)) 8),
      ln_coef_B (StandardLine_init (Some (P2 (-3) (-2))) (Some (P2 3 4)) 8),
      ln_coef_C (StandardLine_init (Some (P2 (-3) (-2))) (Some (P2 3 4)) 8)) = (1, -1, 1)
   \<and> (\<exists>s. s \<noteq> 0 \<and>
        ln_coef_A (StandardLine_init (Some (P2 (-3) (-2))) (Some (P2 3 4)) 8) = s * 1 \<and>
        ln_coef_B (StandardLine_init (Some (P2 (-3) (-2))) (Some (P2 3 4)) 8) = s * (-1) \<and>
        ln_coef_C (StandardLine_init (Some (P2 (-3) (-2))) (Some (P2 3 4)) 8) = s * 1)"
proof -
  let ?l = "StandardLine_init (Some (P2 (-3) (-2))) (Some (P2 3 4)) 8"
  have k: "ln_slope ?l = 1"
    by (simp add: StandardLine_init_def Let_def)
  have b: "ln_y_intercept ?l = 1"
    by (simp add: StandardLine_init_def Let_def)
  have A: "ln_coef_A ?l = 1"
    by (simp add: StandardLine_init_def Let_def)
  have B: "ln_coef_B ?l = -1"
    by (simp add: StandardLine_init_def Let_def)
  have C: "ln_coef_C ?l = 1"
    by (simp add: StandardLine_init_def Let_def)
  have "\<exists>s::real. s \<noteq> 0 \<and> ln_coef_A ?l = s * 1 \<and> ln_coef_B ?l = s * (-1) \<and> ln_coef_C ?l = s * 1"
    using A B C by (intro exI [of _ 1]) simp
  with k b A B C show ?thesis by simp
qed

section \<open>Properties of StandardEllipse\<close>







section \<open>Properties of StandardHyperbola\<close>










section \<open>Properties of StandardParabola\<close>




section \<open>Properties of ConeOblique\<close>

lemma cone_offsets_low:
  "h \<le> r * s + 0.001 \<Longrightarrow> cone_tangent_offsets r h s = Inr (r, 0)"
  by (simp add: cone_tangent_offsets_def Let_def)

lemma cone_offsets_high:
  assumes "r * s + 0.001 < h" "(r * s) ^ 2 \<le> h ^ 2"
  shows "cone_tangent_offsets r h s = Inr (r * sqrt (1 - (r * s) ^ 2 / h ^ 2), (r * s) ^ 2 / h)"
proof -
  have hz: "h \<noteq> 0"
  proof
    assume "h = 0"
    with assms(2) have "r * s = 0" by simp
    with assms(1) \<open>h = 0\<close> show False by simp
  qed
  then have "0 < h ^ 2" by simp
  then have "(r * s) ^ 2 / h ^ 2 \<le> 1" using assms(2) by (simp add: divide_le_eq)
  then have nn: "\<not> (1 - (r * s) ^ 2 / h ^ 2 < 0)" by linarith
  have m: "np_sqrt (1 - (r * s) ^ 2 / h ^ 2) = Inr (sqrt (1 - (r * s) ^ 2 / h ^ 2))"
    unfolding np_sqrt_def using nn by (rule if_not_P)
  have g: "\<not> h \<le> r * s + 0.001" using assms(1) by simp
  show ?thesis
    unfolding cone_tangent_offsets_def Let_def using g hz by (simp add: m)
qed

lemma cone_nonneg_sq:
  fixes b h :: real
  assumes "0 \<le> b" "b + 0.001 < h"
  shows "b ^ 2 \<le> h ^ 2"
  using assms by (intro power_mono) simp_all

lemma cone_points:
  "cone_tangent_offsets r h s = Inr (x, y) \<Longrightarrow>
   \<exists>K. ConeOblique_init r h s (cx, cy, cz) = Inr K
     \<and> cone_p_tangent_left K = (cx - x, cy + y, cz)
     \<and> cone_p_tangent_right K = (cx + x, cy + y, cz)
     \<and> cone_p_apex K = (cx, cy + h, cz)"
  by (simp add: ConeOblique_init_def LEFT_def RIGHT_def UP_def)

text \<open>
  Claim C3, as the code has it.  With \<open>a = radius\<close>, \<open>b = radius * skew_factor\<close> and apex
  height \<open>h\<close>: when \<open>h \<le> b + 0.001\<close> the offsets are \<open>x = a\<close>, \<open>y = 0\<close> (the base
  endpoint); when \<open>h > b + 0.001\<close> (and \<open>b \<ge> 0\<close>, or at least \<open>b\<^sup>2 \<le> h\<^sup>2\<close>) they are
  \<open>x = a * sqrt (1 - b\<^sup>2/h\<^sup>2)\<close> and \<open>y = b\<^sup>2/h\<close>; and the tangent points are the centre plus
  \<open>(\<plusminus>x, y)\<close>.
\<close>

theorem ConeOblique_tangent_offsets:
  "(h \<le> r * s + 0.001 \<longrightarrow> cone_tangent_offsets r h s = Inr (r, 0))
   \<and> (r * s + 0.001 < h \<and> (0 \<le> r * s \<or> (r * s) ^ 2 \<le> h ^ 2) \<longrightarrow>
        cone_tangent_offsets r h s = Inr (r * sqrt (1 - (r * s) ^ 2 / h ^ 2), (r * s) ^ 2 / h))
   \<and> (cone_tangent_offsets r h s = Inr (x, y) \<longrightarrow>
        (\<exists>K. ConeOblique_init r h s (cx, cy, cz) = Inr K
           \<and> cone_p_tangent_left K = (cx - x, cy + y, cz)
           \<and> cone_p_tangent_right K = (cx + x, cy + y, cz)))"
proof (intro conjI impI)
  assume "h \<le> r * s + 0.001"
  then show "cone_tangent_offsets r h s = Inr (r, 0)" by (rule cone_offsets_low)
next
  assume a: "r * s + 0.001 < h \<and> (0 \<le> r * s \<or> (r * s) ^ 2 \<le> h ^ 2)"
  then have "(r * s) ^ 2 \<le> h ^ 2" using cone_nonneg_sq [of "r * s" h] by blast
  with a show "cone_tangent_offsets r h s = Inr (r * sqrt (1 - (r * s) ^ 2 / h ^ 2), (r * s) ^ 2 / h)"
    by (simp add: cone_offsets_high)
next
  assume "cone_tangent_offsets r h s = Inr (x, y)"
  from cone_points [OF this, of cx cy cz]
  show "\<exists>K. ConeOblique_init r h s (cx, cy, cz) = Inr K
           \<and> cone_p_tangent_left K = (cx - x, cy + y, cz)
           \<and> cone_p_tangent_right K = (cx + x, cy + y, cz)" by blast
qed

text \<open>
  The default cone (radius 2, height 3.5, skew factor 0.4, so \<open>b = 0.8\<close>) has offsets
  \<open>y = 0.64/3.5\<close> and \<open>x = 2 * sqrt (1 - 0.64/12.25)\<close>; a cone of height 0.5 on the same
  base degenerates to the base endpoints.
\<close>

theorem ConeOblique_tangent_offsets_witness:
  "cone_tangent_offsets 2 3.5 0.4 = Inr (2 * sqrt (1 - 0.64 / 12.25), 0.64 / 3.5)
   \<and> cone_tangent_offsets 2 0.5 0.4 = Inr (2, 0)
   \<and> (\<exists>K. ConeOblique_init 2 0.5 0.4 (0, 0, 0) = Inr K
           \<and> cone_p_tangent_left K = (-2, 0, 0) \<and> cone_p_tangent_right K = (2, 0, 0))"
proof -
  have 1: "cone_tangent_offsets 2 3.5 0.4 = Inr (2 * sqrt (1 - 0.64 / 12.25), 0.64 / 3.5)"
    using ConeOblique_tangent_offsets [of "3.5" 2 "0.4"] by (simp add: power2_eq_square)
  have 2: "cone_tangent_offsets 2 0.5 0.4 = Inr (2, 0)"
    using ConeOblique_tangent_offsets [of "0.5" 2 "0.4"] by simp
  have 3: "\<exists>K. ConeOblique_init 2 0.5 0.4 (0, 0, 0) = Inr K
           \<and> cone_p_tangent_left K = (-2, 0, 0) \<and> cone_p_tangent_right K = (2, 0, 0)"
    using ConeOblique_tangent_offsets [of "0.5" 2 "0.4" 2 0 0 0 0] 2 by simp
  from 1 2 3 show ?thesis by blast
qed

text \<open>
  Claim C3 as stated (the closed form whenever \<open>h > b\<close>) fails between \<open>b\<close> and
  \<open>b + 0.001\<close>: radius 2, skew factor 0.4 and height 0.8005 give \<open>h > b = 0.8\<close>, yet the
  offsets are those of the base endpoint, not the closed form.
\<close>

theorem ConeOblique_guard_counterexample:
  "\<not> ((2::real) * 0.4 < 0.8005 \<longrightarrow>
       cone_tangent_offsets 2 0.8005 0.4
         = Inr (2 * sqrt (1 - (2 * 0.4) ^ 2 / 0.8005 ^ 2), (2 * 0.4) ^ 2 / 0.8005))"
  by (simp add: cone_tangent_offsets_def Let_def)

section \<open>Properties of SphereOblique\<close>

lemma angle_135: "-135 * DEGREES = - (3 * pi / 4)"
  by (simp add: DEGREES_def)

lemma tan_135: "tan (- (3 * pi / 4)) = 1"
proof -
  have "tan (- (3 * pi / 4) + pi) = tan (- (3 * pi / 4))" by (rule tan_periodic_pi)
  moreover have "- (3 * pi / 4) + pi = pi / 4" by simp
  ultimately show ?thesis by (simp add: tan_45)
qed

lemma cos_135: "cos (- (3 * pi / 4)) \<noteq> 0"
proof -
  have "cos (- (3 * pi / 4) + pi) = - cos (- (3 * pi / 4))" by (rule cos_periodic_pi)
  moreover have "- (3 * pi / 4) + pi = pi / 4" by simp
  ultimately have "cos (- (3 * pi / 4)) = - cos (pi / 4)" by simp
  then show ?thesis by (simp add: cos_45)
qed

lemma sphere_on_ellipse:
  fixes a b k :: real
  assumes "a \<noteq> 0" "b \<noteq> 0"
  shows "(- (a * b) / sqrt (b ^ 2 + a ^ 2 * k ^ 2)) ^ 2 / a ^ 2
       + (k * (- (a * b) / sqrt (b ^ 2 + a ^ 2 * k ^ 2))) ^ 2 / b ^ 2 = 1"
proof -
  let ?d = "b ^ 2 + a ^ 2 * k ^ 2"
  have dpos: "0 < ?d" using assms by (simp add: add_pos_nonneg)
  have sq: "(sqrt ?d) ^ 2 = ?d" using dpos by simp
  have "(- (a * b) / sqrt ?d) ^ 2 / a ^ 2 + (k * (- (a * b) / sqrt ?d)) ^ 2 / b ^ 2
      = (a ^ 2 * b ^ 2 / ?d) / a ^ 2 + (k ^ 2 * (a ^ 2 * b ^ 2 / ?d)) / b ^ 2"
    by (simp add: power_divide power_mult_distrib sq)
  also have "\<dots> = b ^ 2 / ?d + k ^ 2 * a ^ 2 / ?d"
    using assms by simp
  also have "\<dots> = (b ^ 2 + k ^ 2 * a ^ 2) / ?d" by (simp add: add_divide_distrib)
  also have "\<dots> = 1" using dpos by (simp add: mult.commute)
  finally show ?thesis .
qed

lemma sphere_x_intersect_value:
  assumes "cos ang \<noteq> 0" "(r * s) ^ 2 + r ^ 2 * (tan ang) ^ 2 \<noteq> 0"
  shows "sphere_x_intersect r s ang (cx, cy, cz)
       = Inr (cx + - (r * (r * s)) / sqrt ((r * s) ^ 2 + r ^ 2 * (tan ang) ^ 2),
              cy + tan ang * (- (r * (r * s)) / sqrt ((r * s) ^ 2 + r ^ 2 * (tan ang) ^ 2)),
              cz)"
proof -
  let ?d = "(r * s) ^ 2 + r ^ 2 * (tan ang) ^ 2"
  have nn: "\<not> ?d < 0" by (simp add: not_less)
  have m: "np_sqrt ?d = Inr (sqrt ?d)"
    unfolding np_sqrt_def using nn by (rule if_not_P)
  have z: "sqrt ?d \<noteq> 0"
    using assms(2) by (simp only: real_sqrt_eq_zero_cancel_iff not_False_eq_True)
  show ?thesis
    unfolding sphere_x_intersect_def np_tan_def Let_def using assms(1) z by (simp add: m)
qed

text \<open>
  Claim C4.  With \<open>a = r\<close>, \<open>b = r * s\<close> and \<open>k = tan x_axis_angle\<close> (the angle not a
  vertical one, \<open>r\<close> and \<open>s\<close> non-zero) the stored intersection point is the centre plus
  \<open>(x, y)\<close> where \<open>x = -(a * b) / sqrt (b\<^sup>2 + a\<^sup>2 * k\<^sup>2)\<close>, always with the negative sign,
  and \<open>y = k * x\<close>; this point lies on the ellipse \<open>x\<^sup>2/a\<^sup>2 + y\<^sup>2/b\<^sup>2 = 1\<close>.  In particular
  for radius 2, skew factor 0.3 and an angle of -135 degrees the slope is 1, the offset is
  \<open>x = y = -1.2 / sqrt 4.36\<close>, and the ellipse equation holds within \<open>10\<^sup>-\<^sup>6\<close>.
\<close>

theorem SphereOblique_x_intersect:
  "(cos ang \<noteq> 0 \<and> r \<noteq> 0 \<and> s \<noteq> 0 \<longrightarrow>
      (\<exists>x y. sphere_x_intersect r s ang (cx, cy, cz) = Inr (cx + x, cy + y, cz)
         \<and> x = - (r * (r * s)) / sqrt ((r * s) ^ 2 + r ^ 2 * (tan ang) ^ 2)
         \<and> y = tan ang * x
         \<and> x ^ 2 / r ^ 2 + y ^ 2 / (r * s) ^ 2 = 1))
   \<and> (\<exists>x y. sphere_x_intersect 2 0.3 (-135 * DEGREES) (cx, cy, cz) = Inr (cx + x, cy + y, cz)
         \<and> x = - 1.2 / sqrt 4.36 \<and> y = x
         \<and> \<bar>x ^ 2 / 2 ^ 2 + y ^ 2 / (2 * 0.3) ^ 2 - 1\<bar> < 1 / 10 ^ 6)"
proof -
  have gen: "\<exists>x y. sphere_x_intersect r s ang (cx, cy, cz) = Inr (cx + x, cy + y, cz)
         \<and> x = - (r * (r * s)) / sqrt ((r * s) ^ 2 + r ^ 2 * (tan ang) ^ 2)
         \<and> y = tan ang * x
         \<and> x ^ 2 / r ^ 2 + y ^ 2 / (r * s) ^ 2 = 1"
    if h: "cos ang \<noteq> 0" "r \<noteq> 0" "s \<noteq> 0" for r s ang
  proof -
    have "0 < (r * s) ^ 2" using h by simp
    then have "0 < (r * s) ^ 2 + r ^ 2 * (tan ang) ^ 2" by (simp add: add_pos_nonneg)
    then have d: "(r * s) ^ 2 + r ^ 2 * (tan ang) ^ 2 \<noteq> 0" by simp
    have rs: "r * s \<noteq> 0" using h by simp
    show ?thesis
      using sphere_x_intersect_value [OF h(1) d, of cx cy cz]
        sphere_on_ellipse [OF h(2) rs, of "tan ang"] by simp
  qed
  have c: "cos (-135 * DEGREES) \<noteq> 0" unfolding angle_135 by (rule cos_135)
  have t: "tan (-135 * DEGREES) = 1" unfolding angle_135 by (rule tan_135)
  from gen [of "-135 * DEGREES" 2 "0.3", OF c, unfolded t]
  obtain x y where xy:
    "sphere_x_intersect 2 0.3 (-135 * DEGREES) (cx, cy, cz) = Inr (cx + x, cy + y, cz)"
    "x = - (2 * (2 * 0.3)) / sqrt ((2 * 0.3) ^ 2 + 2 ^ 2 * 1 ^ 2)"
    "y = 1 * x" "x ^ 2 / 2 ^ 2 + y ^ 2 / (2 * 0.3) ^ 2 = 1"
    by auto
  have x: "x = - 1.2 / sqrt 4.36" using xy(2) by (simp add: power2_eq_square)
  have y: "y = x" using xy(3) by simp
  have "\<bar>x ^ 2 / 2 ^ 2 + y ^ 2 / (2 * 0.3) ^ 2 - 1\<bar> < 1 / 10 ^ 6" using xy(4) by simp
  with xy(1) x y
  have conc: "\<exists>x y. sphere_x_intersect 2 0.3 (-135 * DEGREES) (cx, cy, cz) = Inr (cx + x, cy + y, cz)
         \<and> x = - 1.2 / sqrt 4.36 \<and> y = x
         \<and> \<bar>x ^ 2 / 2 ^ 2 + y ^ 2 / (2 * 0.3) ^ 2 - 1\<bar> < 1 / 10 ^ 6" by blast
  show ?thesis using gen conc by blast
qed

text \<open>A sphere of radius 1 and skew factor 1/2 with a horizontal X axis: the point \<open>(-1, 0)\<close>.\<close>

theorem SphereOblique_x_intersect_witness:
  "sphere_x_intersect 1 (1 / 2) 0 (0, 0, 0) = Inr (- 1, 0, 0)
   \<and> (- 1 :: real) ^ 2 / 1 ^ 2 + 0 ^ 2 / (1 * (1 / 2)) ^ 2 = 1"
  using SphereOblique_x_intersect [of 0 1 "1 / 2" 0 0 0] by (auto simp: power2_eq_square real_sqrt_divide)

section \<open>Properties of PolyhedronBase\<close>

subsection \<open>Edge topology\<close>

lemma fold_add_edge_set:
  "set (fst (fold (add_edge k) xs t)) = set (fst t) \<union> set xs"
  by (induction xs arbitrary: t) (auto simp: add_edge_def split: prod.splits)

lemma fold_add_edge_distinct:
  "distinct (fst t) \<Longrightarrow> distinct (fst (fold (add_edge k) xs t))"
  by (induction xs arbitrary: t) (auto simp: add_edge_def split: prod.splits)

lemma fold_add_edge_dom:
  "dom (snd (fold (add_edge k) xs t)) = dom (snd t) \<union> set xs"
  by (induction xs arbitrary: t) (auto simp: add_edge_def split: prod.splits)

lemma fold_add_edge_connected:
  "connected (snd (fold (add_edge k) xs t)) e
     = connected (snd t) e \<union> (if e \<in> set xs then {k} else {})"
  by (induction xs arbitrary: t) (auto simp: add_edge_def split: prod.splits option.splits)

lemma build_faces_set:
  "set (fst (build_faces k fcs t)) = set (fst t) \<union> (\<Union>f \<in> set fcs. set (face_edges f))"
  by (induction fcs arbitrary: k t) (auto simp: fold_add_edge_set)

lemma build_faces_distinct:
  "distinct (fst t) \<Longrightarrow> distinct (fst (build_faces k fcs t))"
  by (induction fcs arbitrary: k t) (auto simp: fold_add_edge_distinct)

lemma build_faces_dom:
  "dom (snd (build_faces k fcs t)) = dom (snd t) \<union> (\<Union>f \<in> set fcs. set (face_edges f))"
  by (induction fcs arbitrary: k t) (auto simp: fold_add_edge_dom)

lemma build_faces_connected:
  "connected (snd (build_faces k fcs t)) e
     = connected (snd t) e \<union> {k + i | i. i < length fcs \<and> e \<in> set (face_edges (fcs ! i))}"
proof (induction fcs arbitrary: k t)
  case Nil
  then show ?case by simp
next
  case (Cons f fcs)
  have "{k + i | i. i < length (f # fcs) \<and> e \<in> set (face_edges ((f # fcs) ! i))}
      = (if e \<in> set (face_edges f) then {k} else {})
        \<union> {Suc k + i | i. i < length fcs \<and> e \<in> set (face_edges (fcs ! i))}"
    (is "?L = ?R")
  proof (intro set_eqI iffI)
    fix x assume "x \<in> ?L"
    then obtain i where i: "x = k + i" "i < length (f # fcs)" "e \<in> set (face_edges ((f # fcs) ! i))"
      by blast
    show "x \<in> ?R"
    proof (cases i)
      case 0
      with i show ?thesis by simp
    next
      case (Suc j)
      with i have "x = Suc k + j" "j < length fcs" "e \<in> set (face_edges (fcs ! j))" by simp_all
      then show ?thesis by blast
    qed
  next
    fix x assume "x \<in> ?R"
    then consider "e \<in> set (face_edges f)" "x = k"
      | j where "x = Suc k + j" "j < length fcs" "e \<in> set (face_edges (fcs ! j))"
      by (auto split: if_splits)
    then show "x \<in> ?L"
    proof cases
      case 1
      then have "x = k + 0" "0 < length (f # fcs)" "e \<in> set (face_edges ((f # fcs) ! 0))" by simp_all
      then show ?thesis by blast
    next
      case 2
      then have "x = k + Suc j" "Suc j < length (f # fcs)" "e \<in> set (face_edges ((f # fcs) ! Suc j))"
        by simp_all
      then show ?thesis by blast
    qed
  qed
  then show ?case
    by (simp add: Cons.IH fold_add_edge_connected Un_assoc)
qed

lemma build_edge_topology_props:
  assumes "build_edge_topology fcs = (es, m)"
  shows "set es = (\<Union>f \<in> set fcs. set (face_edges f))"
    and "distinct es"
    and "dom m = set es"
    and "connected m e = {i. i < length fcs \<and> e \<in> set (face_edges (fcs ! i))}"
proof -
  have es: "es = fst (build_faces 0 fcs ([], Map.empty))"
    and m: "m = snd (build_faces 0 fcs ([], Map.empty))"
    using assms by (simp_all add: build_edge_topology_def)
  show "set es = (\<Union>f \<in> set fcs. set (face_edges f))" by (simp add: es build_faces_set)
  show "distinct es" by (simp add: es build_faces_distinct)
  show "dom m = set es" by (simp add: es m build_faces_set build_faces_dom)
  show "connected m e = {i. i < length fcs \<and> e \<in> set (face_edges (fcs ! i))}"
    unfolding m by (simp add: build_faces_connected)
qed

lemma edge_to_faces_Some:
  assumes "build_edge_topology fcs = (es, m)" "e \<in> set es"
  shows "\<exists>cf. m e = Some cf \<and> set cf = {i. i < length fcs \<and> e \<in> set (face_edges (fcs ! i))}"
proof -
  from assms build_edge_topology_props(3) [OF assms(1)] obtain cf where cf: "m e = Some cf" by blast
  with build_edge_topology_props(4) [OF assms(1), of e] show ?thesis by simp
qed

subsection \<open>Creating the edge lines\<close>

lemma create_edges_dom:
  "create_edges vs col w es objs = Inr objs' \<Longrightarrow> dom objs' = dom objs \<union> set es"
  by (induction es arbitrary: objs) (auto split: sum.splits)

lemma create_edges_valid:
  "create_edges vs col w es objs = Inr objs' \<Longrightarrow> e \<in> set es \<Longrightarrow>
   (\<exists>v. py_get vs (fst e) = Inr v) \<and> (\<exists>v. py_get vs (snd e) = Inr v)"
  by (induction es arbitrary: objs) (auto split: sum.splits)

subsection \<open>Indices of a face\<close>

lemma face_index_in_edge:
  assumes "i \<in> set face"
  shows "\<exists>e \<in> set (face_edges face). fst e = i \<or> snd e = i"
proof -
  from assms obtain p where p: "p < length face" "face ! p = i" by (auto simp: in_set_conv_nth)
  let ?e = "sorted_edge (face ! p) (face ! ((p + 1) mod length face))"
  have "?e \<in> set (face_edges face)" using p(1) by (auto simp: face_edges_def)
  moreover have "fst ?e = i \<or> snd ?e = i" using p(2) by (simp add: sorted_edge_def)
  ultimately show ?thesis by blast
qed

lemma init_fields:
  assumes "PolyhedronBase_init vs fcs ec vc dc sw oc = Inr P"
  shows "vertices_local P = vs" "faces P = fcs" "n_faces P = length fcs"
    "edge_color P = ec" "dashed_color P = dc" "stroke_width P = sw" "obj_center P = oc"
    "build_edge_topology fcs = (edges P, edge_to_faces P)"
    "create_edges vs ec sw (edges P) Map.empty = Inr (edge_objects P)"
  using assms by (auto simp: PolyhedronBase_init_def split: prod.splits sum.splits)

lemma init_indices_valid:
  assumes "PolyhedronBase_init vs fcs ec vc dc sw oc = Inr P" "face \<in> set fcs" "i \<in> set face"
  shows "\<exists>v. py_get vs i = Inr v"
proof -
  from face_index_in_edge [OF assms(3)] obtain e where e: "e \<in> set (face_edges face)"
    "fst e = i \<or> snd e = i" by blast
  have "e \<in> set (edges P)"
    using build_edge_topology_props(1) [OF init_fields(8) [OF assms(1)]] e(1) assms(2) by blast
  from create_edges_valid [OF init_fields(9) [OF assms(1)] this] e(2) show ?thesis by auto
qed

subsection \<open>Success of the face computations\<close>

lemma sum_vertices_ok:
  "(\<And>i. i \<in> set face \<Longrightarrow> \<exists>v. py_get vs i = Inr v) \<Longrightarrow> \<exists>c'. sum_vertices vs face c = Inr c'"
proof (induction face arbitrary: c)
  case Nil
  then show ?case by (simp del: split_paired_Ex)
next
  case (Cons i face)
  have "\<exists>v. py_get vs i = Inr v" by (rule Cons.prems) simp
  then obtain v where v: "py_get vs i = Inr v" ..
  have "\<exists>c'. sum_vertices vs face (vadd c v) = Inr c'"
    by (rule Cons.IH) (rule Cons.prems, simp)
  then obtain c' where "sum_vertices vs face (vadd c v) = Inr c'" ..
  with v have "sum_vertices vs (i # face) c = Inr c'" by simp
  then show ?case ..
qed

lemma compute_face_center_ok:
  assumes "\<And>i. i \<in> set face \<Longrightarrow> \<exists>v. py_get vs i = Inr v"
  shows "(face = [] \<longrightarrow> compute_face_center vs face = Inl NonFinite)
       \<and> (face \<noteq> [] \<longrightarrow> (\<exists>fc. compute_face_center vs face = Inr fc))"
proof -
  have "\<exists>c'. sum_vertices vs face (0, 0, 0) = Inr c'"
    by (rule sum_vertices_ok) (rule assms)
  then obtain c' where "sum_vertices vs face (0, 0, 0) = Inr c'" ..
  then show ?thesis by (simp add: compute_face_center_def del: split_paired_Ex)
qed

lemma compute_face_normal_ok:
  assumes "\<And>i. i \<in> set face \<Longrightarrow> \<exists>v. py_get vs i = Inr v"
  shows "\<exists>n. compute_face_normal vs face = Inr n"
proof (cases "length face < 3")
  case True
  then show ?thesis by (simp add: compute_face_normal_def)
next
  case False
  then have "face ! 0 \<in> set face" "face ! 1 \<in> set face" "face ! 2 \<in> set face"
    by (auto intro!: nth_mem)
  then have "\<exists>v. py_get vs (face ! 0) = Inr v" "\<exists>v. py_get vs (face ! 1) = Inr v"
    "\<exists>v. py_get vs (face ! 2) = Inr v" by (simp_all only: assms)
  then obtain v0 v1 v2 where "py_get vs (face ! 0) = Inr v0" "py_get vs (face ! 1) = Inr v1"
    "py_get vs (face ! 2) = Inr v2" by blast
  then show ?thesis using False
    by (simp add: compute_face_normal_def Let_def del: split_paired_Ex)
qed

lemma is_face_visible_ok:
  assumes "k < length (faces P)"
    and "\<And>i. i \<in> set (faces P ! k) \<Longrightarrow> \<exists>v. py_get (vertices_local P) i = Inr v"
  shows "\<exists>n. compute_face_normal (vertices_local P) (faces P ! k) = Inr n
     \<and> (faces P ! k = [] \<longrightarrow> is_face_visible P k cam = Inr False)
     \<and> (faces P ! k \<noteq> [] \<longrightarrow> (\<exists>fc. compute_face_center (vertices_local P) (faces P ! k) = Inr fc
           \<and> is_face_visible P k cam = Inr (dot (view_vector (obj_center P) fc cam) n < 0)))"
proof -
  have g: "py_get (faces P) (int k) = Inr (faces P ! k)" using assms(1) by (simp add: py_get_def)
  have "\<exists>n. compute_face_normal (vertices_local P) (faces P ! k) = Inr n"
    by (rule compute_face_normal_ok) (rule assms(2))
  then obtain n where n: "compute_face_normal (vertices_local P) (faces P ! k) = Inr n" ..
  have "(faces P ! k = [] \<longrightarrow> compute_face_center (vertices_local P) (faces P ! k) = Inl NonFinite)
     \<and> (faces P ! k \<noteq> [] \<longrightarrow> (\<exists>fc. compute_face_center (vertices_local P) (faces P ! k) = Inr fc))"
    by (rule compute_face_center_ok) (rule assms(2))
  then have c: "faces P ! k = [] \<Longrightarrow> compute_face_center (vertices_local P) (faces P ! k) = Inl NonFinite"
    "faces P ! k \<noteq> [] \<Longrightarrow> \<exists>fc. compute_face_center (vertices_local P) (faces P ! k) = Inr fc"
    by simp_all
  show ?thesis
  proof (cases "faces P ! k = []")
    case True
    with c(1) n show ?thesis by (simp add: is_face_visible_def g del: split_paired_Ex)
  next
    case False
    from c(2) [OF False] obtain fc
      where "compute_face_center (vertices_local P) (faces P ! k) = Inr fc" ..
    with n False show ?thesis by (simp add: is_face_visible_def g del: split_paired_Ex)
  qed
qed

lemma face_visibility_result:
  "face_visibility P cam ks = Inr vis \<Longrightarrow>
   length vis = length ks \<and> (\<forall>j < length ks. is_face_visible P (ks ! j) cam = Inr (vis ! j))"
proof (induction ks arbitrary: vis)
  case Nil
  then show ?case by simp
next
  case (Cons k ks)
  from Cons.prems obtain b bs where b: "is_face_visible P k cam = Inr b"
    and bs: "face_visibility P cam ks = Inr bs" and vis: "vis = b # bs"
    by (auto split: sum.splits)
  from Cons.IH [OF bs] have ih: "length bs = length ks"
    "\<forall>j < length ks. is_face_visible P (ks ! j) cam = Inr (bs ! j)" by simp_all
  show ?case
  proof (intro conjI allI impI)
    show "length vis = length (k # ks)" using ih vis by simp
    fix j assume "j < length (k # ks)"
    then show "is_face_visible P ((k # ks) ! j) cam = Inr (vis ! j)"
      using b ih vis by (cases j) simp_all
  qed
qed

lemma face_visibility_ok:
  "(\<And>k. k \<in> set ks \<Longrightarrow> \<exists>b. is_face_visible P k cam = Inr b) \<Longrightarrow>
   \<exists>vis. face_visibility P cam ks = Inr vis"
proof (induction ks)
  case Nil
  then show ?case by simp
next
  case (Cons k ks)
  from Cons.prems [of k] obtain b where "is_face_visible P k cam = Inr b" by auto
  moreover from Cons.IH Cons.prems obtain bs where "face_visibility P cam ks = Inr bs" by auto
  ultimately show ?case by simp
qed

lemma face_visibility_upt:
  assumes "face_visibility P cam [0..<n] = Inr vis"
  shows "length vis = n \<and> (\<forall>k < n. is_face_visible P k cam = Inr (vis ! k))"
  using face_visibility_result [OF assms] by simp

subsection \<open>The test that all connected faces are hidden\<close>

lemma all_faces_hidden_ok:
  "(\<And>f. f \<in> set cf \<Longrightarrow> f < length vis) \<Longrightarrow>
   all_faces_hidden vis cf = Inr (\<forall>f \<in> set cf. \<not> vis ! f)"
  by (induction cf) auto

subsection \<open>Restyling the edges\<close>

lemma dashed_solid_idem:
  "dashed_style P (dashed_style P seg) = dashed_style P seg"
  "solid_style P (solid_style P seg) = solid_style P seg"
  by (simp_all add: dashed_style_def solid_style_def)

lemma update_edges_result:
  "update_edges P vis es objs = Inr objs' \<Longrightarrow>
   (\<forall>e. e \<notin> set es \<longrightarrow> objs' e = objs e)
   \<and> (\<forall>e \<in> set es. \<exists>seg cf h. objs e = Some seg \<and> edge_to_faces P e = Some cf
          \<and> all_faces_hidden vis cf = Inr h
          \<and> objs' e = Some (if h then dashed_style P seg else solid_style P seg))"
proof (induction es arbitrary: objs)
  case Nil
  then show ?case by simp
next
  case (Cons x es)
  from Cons.prems obtain seg cf h where x: "objs x = Some seg" "edge_to_faces P x = Some cf"
    "all_faces_hidden vis cf = Inr h"
    and rest: "update_edges P vis es
        (objs(x \<mapsto> (if h then dashed_style P seg else solid_style P seg))) = Inr objs'"
    by (auto split: option.splits sum.splits)
  let ?o1 = "objs(x \<mapsto> (if h then dashed_style P seg else solid_style P seg))"
  from Cons.IH [OF rest] have ih1: "\<forall>e. e \<notin> set es \<longrightarrow> objs' e = ?o1 e"
    and ih2: "\<forall>e \<in> set es. \<exists>seg cf h. ?o1 e = Some seg \<and> edge_to_faces P e = Some cf
          \<and> all_faces_hidden vis cf = Inr h
          \<and> objs' e = Some (if h then dashed_style P seg else solid_style P seg)"
    by simp_all
  have a: "\<forall>e. e \<notin> set (x # es) \<longrightarrow> objs' e = objs e" using ih1 by simp
  have b: "\<exists>seg cf h. objs e = Some seg \<and> edge_to_faces P e = Some cf
          \<and> all_faces_hidden vis cf = Inr h
          \<and> objs' e = Some (if h then dashed_style P seg else solid_style P seg)"
    if e: "e \<in> set (x # es)" for e
  proof (cases "e = x")
    case True
    show ?thesis
    proof (cases "x \<in> set es")
      case False
      with ih1 [rule_format, of x]
      have "objs' x = Some (if h then dashed_style P seg else solid_style P seg)" by simp
      with x True show ?thesis by simp
    next
      case xin: True
      from ih2 xin obtain seg' cf' h' where s: "?o1 x = Some seg'" "edge_to_faces P x = Some cf'"
        "all_faces_hidden vis cf' = Inr h'"
        "objs' x = Some (if h' then dashed_style P seg' else solid_style P seg')" by blast
      from s(2,3) x(2,3) have "h' = h" by simp
      moreover from s(1) have "seg' = (if h then dashed_style P seg else solid_style P seg)" by simp
      ultimately have "objs' x = Some (if h then dashed_style P seg else solid_style P seg)"
        using s(4) by (simp add: dashed_solid_idem)
      with x True show ?thesis by simp
    qed
  next
    case False
    with e have "e \<in> set es" by simp
    with ih2 obtain seg' cf' h' where s: "?o1 e = Some seg'" "edge_to_faces P e = Some cf'"
      "all_faces_hidden vis cf' = Inr h'"
      "objs' e = Some (if h' then dashed_style P seg' else solid_style P seg')" by blast
    from s(1) False have "objs e = Some seg'" by simp
    with s(2,3,4) show ?thesis by blast
  qed
  from a b show ?case by blast
qed

lemma update_edges_ok:
  "(\<And>e. e \<in> set es \<Longrightarrow> e \<in> dom objs
       \<and> (\<exists>cf. edge_to_faces P e = Some cf \<and> (\<forall>f \<in> set cf. f < length vis))) \<Longrightarrow>
   \<exists>objs'. update_edges P vis es objs = Inr objs'"
proof (induction es arbitrary: objs)
  case Nil
  then show ?case by simp
next
  case (Cons x es)
  from Cons.prems [of x] obtain seg cf where x: "objs x = Some seg" "edge_to_faces P x = Some cf"
    "\<forall>f \<in> set cf. f < length vis" by auto
  from all_faces_hidden_ok [of cf vis] x(3)
  have h: "all_faces_hidden vis cf = Inr (\<forall>f \<in> set cf. \<not> vis ! f)" by simp
  let ?o1 = "objs(x \<mapsto> (if (\<forall>f \<in> set cf. \<not> vis ! f) then dashed_style P seg else solid_style P seg))"
  have "\<exists>objs'. update_edges P vis es ?o1 = Inr objs'"
  proof (rule Cons.IH)
    fix e assume "e \<in> set es"
    with Cons.prems [of e] show "e \<in> dom ?o1
       \<and> (\<exists>cf. edge_to_faces P e = Some cf \<and> (\<forall>f \<in> set cf. f < length vis))" by auto
  qed
  with x h show ?case by simp
qed

lemma update_edges_again:
  assumes "update_edges P vis es objs = Inr objs'"
  shows "update_edges P vis es objs' = Inr objs'"
  using assms
proof (induction es arbitrary: objs)
  case Nil
  then show ?case by simp
next
  case (Cons x es)
  from Cons.prems obtain seg cf h where x: "objs x = Some seg" "edge_to_faces P x = Some cf"
    "all_faces_hidden vis cf = Inr h"
    and rest: "update_edges P vis es
        (objs(x \<mapsto> (if h then dashed_style P seg else solid_style P seg))) = Inr objs'"
    by (auto split: option.splits sum.splits)
  from update_edges_result [OF Cons.prems] obtain seg' cf' h' where s: "objs x = Some seg'"
    "edge_to_faces P x = Some cf'" "all_faces_hidden vis cf' = Inr h'"
    "objs' x = Some (if h' then dashed_style P seg' else solid_style P seg')" by auto
  from s x have o: "objs' x = Some (if h then dashed_style P seg else solid_style P seg)" by simp
  have "objs'(x \<mapsto> (if h then dashed_style P (if h then dashed_style P seg else solid_style P seg)
      else solid_style P (if h then dashed_style P seg else solid_style P seg))) = objs'"
    using o by (auto simp: dashed_solid_idem fun_eq_iff)
  moreover have "update_edges P vis es objs' = Inr objs'" using Cons.IH [OF rest] .
  ultimately show ?case using o x by simp
qed

lemma update_edges_frame:
  "update_edges (P\<lparr>edge_objects := x\<rparr>) vis es objs = update_edges P vis es objs"
  by (induction es arbitrary: objs)
     (auto simp: dashed_style_def solid_style_def split: option.splits sum.splits)

lemma is_face_visible_frame:
  "is_face_visible (P\<lparr>edge_objects := x\<rparr>) k cam = is_face_visible P k cam"
  by (simp add: is_face_visible_def cong: sum.case_cong failure.case_cong)

lemma face_visibility_frame:
  "face_visibility (P\<lparr>edge_objects := x\<rparr>) cam ks = face_visibility P cam ks"
  by (induction ks) (simp_all add: is_face_visible_frame cong: sum.case_cong)

subsection \<open>Well-formed states and the update\<close>

lemma init_well_formed:
  assumes "PolyhedronBase_init vs fcs ec vc dc sw oc = Inr P"
  shows "well_formed P"
proof -
  note f = init_fields [OF assms]
  have "dom (edge_objects P) = set (edges P)" using create_edges_dom [OF f(9)] by simp
  moreover have "\<forall>face \<in> set (faces P). \<forall>i \<in> set face. \<exists>v. py_get (vertices_local P) i = Inr v"
    using init_indices_valid [OF assms] f(1,2) by blast
  ultimately show ?thesis using f by simp
qed

lemma style_facts:
  "is_dashed P (dashed_style P seg)" "\<not> is_solid P (dashed_style P seg)"
  "is_solid P (solid_style P seg)" "\<not> is_dashed P (solid_style P seg)"
  "l_start (dashed_style P seg) = l_start seg" "l_end (dashed_style P seg) = l_end seg"
  "l_start (solid_style P seg) = l_start seg" "l_end (solid_style P seg) = l_end seg"
  by (simp_all add: is_dashed_def is_solid_def dashed_style_def solid_style_def)

lemma well_formed_visible:
  assumes "well_formed P" "k < length (faces P)"
  shows "\<exists>b. is_face_visible P k cam = Inr b"
proof -
  have v: "\<And>i. i \<in> set (faces P ! k) \<Longrightarrow> \<exists>v. py_get (vertices_local P) i = Inr v"
    using assms by (meson nth_mem)
  from is_face_visible_ok [OF assms(2) v, of cam] show ?thesis
    by (cases "faces P ! k = []") auto
qed

lemma well_formed_visibility:
  assumes "well_formed P"
  shows "\<exists>vis. face_visibility P cam [0..<n_faces P] = Inr vis \<and> length vis = length (faces P)
     \<and> (\<forall>k < length (faces P). is_face_visible P k cam = Inr (vis ! k))"
proof -
  have "\<exists>vis. face_visibility P cam [0..<n_faces P] = Inr vis"
    by (rule face_visibility_ok) (use assms well_formed_visible in auto)
  then obtain vis where vis: "face_visibility P cam [0..<n_faces P] = Inr vis" ..
  from face_visibility_upt [OF vis] assms show ?thesis using vis by auto
qed

lemma well_formed_edge:
  assumes "well_formed P" "e \<in> set (edges P)"
  shows "\<exists>cf. edge_to_faces P e = Some cf
     \<and> set cf = {k. k < length (faces P) \<and> e \<in> set (face_edges (faces P ! k))}"
  using edge_to_faces_Some [of "faces P" "edges P" "edge_to_faces P" e] assms by simp

text \<open>The outcome of one update of a well-formed polyhedron.\<close>

lemma well_formed_update:
  assumes wf: "well_formed P"
    and cam: "cam = (case cp of None \<Rightarrow> get_camera_position | Some c \<Rightarrow> c)"
  shows "\<exists>objs'. update_dashed_lines P cp = Inr (P\<lparr>edge_objects := objs'\<rparr>)
     \<and> dom objs' = dom (edge_objects P)
     \<and> (\<forall>e. e \<notin> set (edges P) \<longrightarrow> objs' e = edge_objects P e)
     \<and> (\<forall>e \<in> set (edges P). \<exists>seg. edge_objects P e = Some seg
          \<and> objs' e = Some (if (\<forall>k < length (faces P). e \<in> set (face_edges (faces P ! k))
                                   \<longrightarrow> is_face_visible P k cam = Inr False)
                            then dashed_style P seg else solid_style P seg))"
proof -
  from well_formed_visibility [OF wf, of cam] obtain vis
    where vis: "face_visibility P cam [0..<n_faces P] = Inr vis" "length vis = length (faces P)"
      "\<forall>k < length (faces P). is_face_visible P k cam = Inr (vis ! k)" by blast
  have pre: "e \<in> dom (edge_objects P)
      \<and> (\<exists>cf. edge_to_faces P e = Some cf \<and> (\<forall>f \<in> set cf. f < length vis))"
    if "e \<in> set (edges P)" for e
    using well_formed_edge [OF wf that] wf that vis(2) by auto
  have "\<exists>objs'. update_edges P vis (edges P) (edge_objects P) = Inr objs'"
    by (rule update_edges_ok) (rule pre)
  then obtain objs' where objs': "update_edges P vis (edges P) (edge_objects P) = Inr objs'" ..
  note res = update_edges_result [OF objs']
  have upd: "update_dashed_lines P cp = Inr (P\<lparr>edge_objects := objs'\<rparr>)"
    using vis(1) objs' cam by (simp add: update_dashed_lines_def)
  have each: "\<exists>seg. edge_objects P e = Some seg
          \<and> objs' e = Some (if (\<forall>k < length (faces P). e \<in> set (face_edges (faces P ! k))
                                   \<longrightarrow> is_face_visible P k cam = Inr False)
                            then dashed_style P seg else solid_style P seg)"
    if e: "e \<in> set (edges P)" for e
  proof -
    from res e obtain seg cf h where s: "edge_objects P e = Some seg" "edge_to_faces P e = Some cf"
      "all_faces_hidden vis cf = Inr h"
      "objs' e = Some (if h then dashed_style P seg else solid_style P seg)" by blast
    from well_formed_edge [OF wf e] s(2)
    have cf: "set cf = {k. k < length (faces P) \<and> e \<in> set (face_edges (faces P ! k))}" by simp
    then have "\<And>f. f \<in> set cf \<Longrightarrow> f < length vis" using vis(2) by simp
    from all_faces_hidden_ok [OF this] s(3) have "h = (\<forall>f \<in> set cf. \<not> vis ! f)" by simp
    also have "\<dots> = (\<forall>k < length (faces P). e \<in> set (face_edges (faces P ! k))
                                   \<longrightarrow> is_face_visible P k cam = Inr False)"
      using cf vis(3) by auto
    finally show ?thesis using s(1,4) by simp
  qed
  have "(objs' e = None) = (edge_objects P e = None)" for e
  proof (cases "e \<in> set (edges P)")
    case True
    from each [OF True] obtain seg where "edge_objects P e = Some seg"
      "objs' e = Some (if (\<forall>k < length (faces P). e \<in> set (face_edges (faces P ! k))
                                   \<longrightarrow> is_face_visible P k cam = Inr False)
                            then dashed_style P seg else solid_style P seg)" by blast
    then show ?thesis by simp
  next
    case False
    with res have "objs' e = edge_objects P e" by blast
    then show ?thesis by simp
  qed
  then have d: "dom objs' = dom (edge_objects P)" by (simp add: dom_def)
  from upd d res each show ?thesis by blast
qed

lemma well_formed_preserved:
  assumes "well_formed P" "update_dashed_lines P cp = Inr P'"
  shows "well_formed P'"
proof -
  from well_formed_update [OF assms(1) refl, of cp] assms(2)
  obtain objs' where "P' = P\<lparr>edge_objects := objs'\<rparr>" "dom objs' = dom (edge_objects P)" by auto
  with assms(1) show ?thesis by simp
qed

lemma reachable_well_formed: "reachable P \<Longrightarrow> well_formed P"
proof (induction rule: reachable.induct)
  case (constructed vs fcs ec vc dc sw oc P)
  then show ?case by (rule init_well_formed)
next
  case (updated P cp P')
  then show ?case using well_formed_preserved by blast
qed

lemma update_twice:
  assumes "update_dashed_lines P cp = Inr P'"
  shows "update_dashed_lines P' cp = Inr P'"
proof -
  define cam where "cam = (case cp of None \<Rightarrow> get_camera_position | Some c \<Rightarrow> c)"
  from assms obtain vis objs' where vis: "face_visibility P cam [0..<n_faces P] = Inr vis"
    and objs': "update_edges P vis (edges P) (edge_objects P) = Inr objs'"
    and P': "P' = P\<lparr>edge_objects := objs'\<rparr>"
    by (auto simp: update_dashed_lines_def cam_def split: sum.splits)
  have "update_edges P vis (edges P) objs' = Inr objs'" using objs' by (rule update_edges_again)
  then show ?thesis
    using vis by (simp add: update_dashed_lines_def P' cam_def [symmetric] face_visibility_frame
        update_edges_frame)
qed

text \<open>
  Claim C9.  In every state a polyhedron can reach, and for every camera position (also
  the default one), \<open>update_dashed_lines\<close> returns; invoking it a second time with the
  same camera position returns the very same state, so every edge keeps exactly the stroke
  style of the first invocation; and an invocation changes nothing but \<open>edge_objects\<close>:
  vertices, faces, edges and the edge-to-face table are the same, the same edges have
  lines, and each line keeps its end points (only colour, opacity and width are set).
\<close>

theorem update_dashed_lines_idempotent:
  assumes "reachable P"
  shows "\<exists>P'. update_dashed_lines P cp = Inr P'
     \<and> update_dashed_lines P' cp = Inr P'
     \<and> P' = P\<lparr>edge_objects := edge_objects P'\<rparr>
     \<and> vertices_local P' = vertices_local P \<and> faces P' = faces P
     \<and> edges P' = edges P \<and> edge_to_faces P' = edge_to_faces P
     \<and> dom (edge_objects P') = dom (edge_objects P)
     \<and> (\<forall>e seg seg'. edge_objects P e = Some seg \<and> edge_objects P' e = Some seg'
           \<longrightarrow> l_start seg' = l_start seg \<and> l_end seg' = l_end seg)
     \<and> reachable P'"
proof -
  define cam where "cam = (case cp of None \<Rightarrow> get_camera_position | Some c \<Rightarrow> c)"
  have wf: "well_formed P" using assms by (rule reachable_well_formed)
  from well_formed_update [OF wf cam_def] obtain objs'
    where u: "update_dashed_lines P cp = Inr (P\<lparr>edge_objects := objs'\<rparr>)"
      and d: "dom objs' = dom (edge_objects P)"
      and out: "\<forall>e. e \<notin> set (edges P) \<longrightarrow> objs' e = edge_objects P e"
      and each: "\<forall>e \<in> set (edges P). \<exists>seg. edge_objects P e = Some seg
          \<and> objs' e = Some (if (\<forall>k < length (faces P). e \<in> set (face_edges (faces P ! k))
                                   \<longrightarrow> is_face_visible P k cam = Inr False)
                            then dashed_style P seg else solid_style P seg)"
    by blast
  let ?P' = "P\<lparr>edge_objects := objs'\<rparr>"
  have ends: "l_start seg' = l_start seg \<and> l_end seg' = l_end seg"
    if "edge_objects P e = Some seg" "objs' e = Some seg'" for e seg seg'
  proof (cases "e \<in> set (edges P)")
    case True
    with each obtain seg0 where s0: "edge_objects P e = Some seg0"
      "objs' e = Some (if (\<forall>k < length (faces P). e \<in> set (face_edges (faces P ! k))
                                   \<longrightarrow> is_face_visible P k cam = Inr False)
                            then dashed_style P seg0 else solid_style P seg0)" by blast
    from s0(1) that(1) have "seg0 = seg" by simp
    with s0(2) that(2) have "seg' = dashed_style P seg \<or> seg' = solid_style P seg"
      by (simp split: if_splits)
    then show ?thesis by (auto simp: style_facts)
  next
    case False
    with out have "objs' e = edge_objects P e" by blast
    with that show ?thesis by simp
  qed
  have eo: "edge_objects ?P' = objs'" by simp
  show ?thesis
  proof (intro exI [of _ ?P'] conjI)
    show "update_dashed_lines P cp = Inr ?P'" by (rule u)
    show "update_dashed_lines ?P' cp = Inr ?P'" using u by (rule update_twice)
    show "?P' = P\<lparr>edge_objects := edge_objects ?P'\<rparr>" by simp
    show "vertices_local ?P' = vertices_local P" by simp
    show "faces ?P' = faces P" by simp
    show "edges ?P' = edges P" by simp
    show "edge_to_faces ?P' = edge_to_faces P" by simp
    show "dom (edge_objects ?P') = dom (edge_objects P)" unfolding eo by (rule d)
    show "\<forall>e seg seg'. edge_objects P e = Some seg \<and> edge_objects ?P' e = Some seg'
           \<longrightarrow> l_start seg' = l_start seg \<and> l_end seg' = l_end seg"
      unfolding eo using ends by blast
    show "reachable ?P'" using assms u by (rule reachable.updated)
  qed
qed

lemma compute_face_normal_value:
  "(length face < 3 \<longrightarrow> compute_face_normal vs face = Inr (0, 0, 1))
   \<and> (3 \<le> length face \<and> py_get vs (face ! 0) = Inr v0 \<and> py_get vs (face ! 1) = Inr v1
        \<and> py_get vs (face ! 2) = Inr v2 \<longrightarrow>
        compute_face_normal vs face
          = Inr (if vnorm (cross (vsub v1 v0) (vsub v2 v0)) < 1 / 10 ^ 6 then (0, 0, 1)
                 else right_hand_normal v0 v1 v2))"
  by (simp add: compute_face_normal_def right_hand_normal_def Let_def)

text \<open>
  Claim C1, as the code has it.  For every polyhedron constructed from a vertex list and
  face index lists, and every camera position (the supplied one, or the default one),
  \<open>update_dashed_lines\<close> returns, and afterwards every edge is in the hidden style if and
  only if every face it belongs to is not visible, and in the solid style otherwise (the
  faces recorded for an edge are exactly the faces that have it among their sides).  A
  face is visible exactly when it has a vertex and the dot product of the view vector (from
  the camera to the group's centre plus the face centre, normalised) with the face normal
  is negative; the face normal is the right-hand-rule normal of the first three vertices
  when the face has at least three vertices and their cross product is at least \<open>1e-6\<close>
  long, and the fixed vector \<open>(0, 0, 1)\<close> otherwise.
\<close>

theorem update_dashed_lines_policy:
  assumes init: "PolyhedronBase_init vs fcs ec vc dc sw oc = Inr P"
    and cam: "cam = (case cp of None \<Rightarrow> get_camera_position | Some c \<Rightarrow> c)"
  shows "\<exists>P'. update_dashed_lines P cp = Inr P'
     \<and> set (edges P) = (\<Union>face \<in> set fcs. set (face_edges face))
     \<and> (\<forall>e \<in> set (edges P). \<exists>cf. edge_to_faces P e = Some cf
          \<and> set cf = {k. k < length fcs \<and> e \<in> set (face_edges (fcs ! k))})
     \<and> (\<forall>e \<in> set (edges P). \<exists>seg. edge_objects P' e = Some seg
          \<and> (is_dashed P seg \<longleftrightarrow>
               (\<forall>k < length fcs. e \<in> set (face_edges (fcs ! k))
                   \<longrightarrow> is_face_visible P k cam = Inr False))
          \<and> (is_solid P seg \<longleftrightarrow>
               \<not> (\<forall>k < length fcs. e \<in> set (face_edges (fcs ! k))
                   \<longrightarrow> is_face_visible P k cam = Inr False)))
     \<and> (\<forall>k < length fcs. \<exists>n. compute_face_normal vs (fcs ! k) = Inr n
          \<and> (fcs ! k = [] \<longrightarrow> is_face_visible P k cam = Inr False)
          \<and> (fcs ! k \<noteq> [] \<longrightarrow>
               (\<exists>fc. compute_face_center vs (fcs ! k) = Inr fc
                  \<and> is_face_visible P k cam = Inr (dot (view_vector oc fc cam) n < 0)))
          \<and> (length (fcs ! k) < 3 \<longrightarrow> n = (0, 0, 1))
          \<and> (3 \<le> length (fcs ! k) \<longrightarrow>
               (\<exists>v0 v1 v2. py_get vs (fcs ! k ! 0) = Inr v0 \<and> py_get vs (fcs ! k ! 1) = Inr v1
                  \<and> py_get vs (fcs ! k ! 2) = Inr v2
                  \<and> n = (if vnorm (cross (vsub v1 v0) (vsub v2 v0)) < 1 / 10 ^ 6 then (0, 0, 1)
                         else right_hand_normal v0 v1 v2))))"
proof -
  note f = init_fields [OF init]
  have wf: "well_formed P" using init by (rule init_well_formed)
  from well_formed_update [OF wf cam] obtain objs'
    where u: "update_dashed_lines P cp = Inr (P\<lparr>edge_objects := objs'\<rparr>)"
      and each: "\<forall>e \<in> set (edges P). \<exists>seg. edge_objects P e = Some seg
          \<and> objs' e = Some (if (\<forall>k < length (faces P). e \<in> set (face_edges (faces P ! k))
                                   \<longrightarrow> is_face_visible P k cam = Inr False)
                            then dashed_style P seg else solid_style P seg)"
    by blast
  let ?P' = "P\<lparr>edge_objects := objs'\<rparr>"
  let ?H = "\<lambda>e. \<forall>k < length fcs. e \<in> set (face_edges (fcs ! k))
                   \<longrightarrow> is_face_visible P k cam = Inr False"
  have edges: "set (edges P) = (\<Union>face \<in> set fcs. set (face_edges face))"
    using build_edge_topology_props(1) [OF f(8)] .
  have styles: "\<exists>seg. edge_objects ?P' e = Some seg
      \<and> (is_dashed P seg \<longleftrightarrow> ?H e) \<and> (is_solid P seg \<longleftrightarrow> \<not> ?H e)"
    if e: "e \<in> set (edges P)" for e
  proof -
    from each e obtain seg where s: "objs' e = Some (if ?H e then dashed_style P seg
        else solid_style P seg)" unfolding f(2) by blast
    show ?thesis
    proof (cases "?H e")
      case True
      with s have "objs' e = Some (dashed_style P seg)" by simp
      with True show ?thesis by (simp add: style_facts)
    next
      case False
      with s have "objs' e = Some (solid_style P seg)" by simp
      with False show ?thesis by (simp add: style_facts)
    qed
  qed
  have vis: "\<exists>n. compute_face_normal vs (fcs ! k) = Inr n
          \<and> (fcs ! k = [] \<longrightarrow> is_face_visible P k cam = Inr False)
          \<and> (fcs ! k \<noteq> [] \<longrightarrow>
               (\<exists>fc. compute_face_center vs (fcs ! k) = Inr fc
                  \<and> is_face_visible P k cam = Inr (dot (view_vector oc fc cam) n < 0)))
          \<and> (length (fcs ! k) < 3 \<longrightarrow> n = (0, 0, 1))
          \<and> (3 \<le> length (fcs ! k) \<longrightarrow>
               (\<exists>v0 v1 v2. py_get vs (fcs ! k ! 0) = Inr v0 \<and> py_get vs (fcs ! k ! 1) = Inr v1
                  \<and> py_get vs (fcs ! k ! 2) = Inr v2
                  \<and> n = (if vnorm (cross (vsub v1 v0) (vsub v2 v0)) < 1 / 10 ^ 6 then (0, 0, 1)
                         else right_hand_normal v0 v1 v2)))"
    if k: "k < length fcs" for k
  proof -
    have valid: "\<And>i. i \<in> set (fcs ! k) \<Longrightarrow> \<exists>v. py_get vs i = Inr v"
      using init_indices_valid [OF init] k by (meson nth_mem)
    have k': "k < length (faces P)" using k f(2) by simp
    have valid': "\<And>i. i \<in> set (faces P ! k) \<Longrightarrow> \<exists>v. py_get (vertices_local P) i = Inr v"
      unfolding f(1,2) by (rule valid)
    from is_face_visible_ok [OF k' valid', of cam] obtain n
      where n: "compute_face_normal vs (fcs ! k) = Inr n"
        "fcs ! k = [] \<longrightarrow> is_face_visible P k cam = Inr False"
        "fcs ! k \<noteq> [] \<longrightarrow> (\<exists>fc. compute_face_center vs (fcs ! k) = Inr fc
           \<and> is_face_visible P k cam = Inr (dot (view_vector oc fc cam) n < 0))"
      unfolding f(1,2,7) by blast
    have small: "length (fcs ! k) < 3 \<longrightarrow> n = (0, 0, 1)"
      using n(1) compute_face_normal_value [of "fcs ! k" vs] by auto
    have big: "\<exists>v0 v1 v2. py_get vs (fcs ! k ! 0) = Inr v0 \<and> py_get vs (fcs ! k ! 1) = Inr v1
                  \<and> py_get vs (fcs ! k ! 2) = Inr v2
                  \<and> n = (if vnorm (cross (vsub v1 v0) (vsub v2 v0)) < 1 / 10 ^ 6 then (0, 0, 1)
                         else right_hand_normal v0 v1 v2)"
      if len: "3 \<le> length (fcs ! k)"
    proof -
      from len have "fcs ! k ! 0 \<in> set (fcs ! k)" "fcs ! k ! 1 \<in> set (fcs ! k)"
        "fcs ! k ! 2 \<in> set (fcs ! k)" by (auto intro!: nth_mem)
      then have "\<exists>v. py_get vs (fcs ! k ! 0) = Inr v" "\<exists>v. py_get vs (fcs ! k ! 1) = Inr v"
        "\<exists>v. py_get vs (fcs ! k ! 2) = Inr v" by (simp_all only: valid)
      then obtain v0 v1 v2 where v: "py_get vs (fcs ! k ! 0) = Inr v0"
        "py_get vs (fcs ! k ! 1) = Inr v1" "py_get vs (fcs ! k ! 2) = Inr v2" by blast
      from compute_face_normal_value [of "fcs ! k" vs v0 v1 v2] len v n(1)
      have "n = (if vnorm (cross (vsub v1 v0) (vsub v2 v0)) < 1 / 10 ^ 6 then (0, 0, 1)
                         else right_hand_normal v0 v1 v2)" by simp
      with v show ?thesis by blast
    qed
    from n small big show ?thesis by blast
  qed
  show ?thesis
  proof (intro exI [of _ ?P'] conjI)
    show "update_dashed_lines P cp = Inr ?P'" by (rule u)
    show "set (edges P) = (\<Union>face \<in> set fcs. set (face_edges face))" by (rule edges)
    show "\<forall>e \<in> set (edges P). \<exists>cf. edge_to_faces P e = Some cf
          \<and> set cf = {k. k < length fcs \<and> e \<in> set (face_edges (fcs ! k))}"
      using well_formed_edge [OF wf] unfolding f(2) by blast
    show "\<forall>e \<in> set (edges P). \<exists>seg. edge_objects ?P' e = Some seg
          \<and> (is_dashed P seg \<longleftrightarrow> ?H e) \<and> (is_solid P seg \<longleftrightarrow> \<not> ?H e)"
      using styles by blast
    show "\<forall>k < length fcs. \<exists>n. compute_face_normal vs (fcs ! k) = Inr n
          \<and> (fcs ! k = [] \<longrightarrow> is_face_visible P k cam = Inr False)
          \<and> (fcs ! k \<noteq> [] \<longrightarrow>
               (\<exists>fc. compute_face_center vs (fcs ! k) = Inr fc
                  \<and> is_face_visible P k cam = Inr (dot (view_vector oc fc cam) n < 0)))
          \<and> (length (fcs ! k) < 3 \<longrightarrow> n = (0, 0, 1))
          \<and> (3 \<le> length (fcs ! k) \<longrightarrow>
               (\<exists>v0 v1 v2. py_get vs (fcs ! k ! 0) = Inr v0 \<and> py_get vs (fcs ! k ! 1) = Inr v1
                  \<and> py_get vs (fcs ! k ! 2) = Inr v2
                  \<and> n = (if vnorm (cross (vsub v1 v0) (vsub v2 v0)) < 1 / 10 ^ 6 then (0, 0, 1)
                         else right_hand_normal v0 v1 v2)))"
      using vis by blast
  qed
qed

subsection \<open>Signs of normalised dot products\<close>

lemma vnorm_nonneg: "0 \<le> vnorm v"
  by (cases v) simp

lemma view_length_pos: "0 < vnorm v + 1 / 10 ^ 6"
  using vnorm_nonneg [of v] by simp

lemma dot_sdiv_left: "dot (sdiv a p) b = dot a b / p"
  by (cases a; cases b) (simp add: add_divide_distrib)

lemma dot_sdiv_right: "dot a (sdiv b q) = dot a b / q"
  by (cases a; cases b) (simp add: add_divide_distrib)

lemma dot_sdiv_left_sign: "0 < p \<Longrightarrow> dot (sdiv a p) b < 0 \<longleftrightarrow> dot a b < 0"
  by (simp add: dot_sdiv_left divide_less_0_iff)

lemma dot_sdiv_sign:
  assumes "0 < p" "0 < q"
  shows "dot (sdiv a p) (sdiv b q) < 0 \<longleftrightarrow> dot a b < 0"
proof -
  have "dot (sdiv a p) (sdiv b q) < 0 \<longleftrightarrow> dot a (sdiv b q) < 0"
    using assms(1) by (rule dot_sdiv_left_sign)
  also have "\<dots> \<longleftrightarrow> dot a b < 0"
    using assms(2) by (simp add: dot_sdiv_right divide_less_0_iff)
  finally show ?thesis .
qed

lemma view_vector_sign:
  "dot (view_vector oc fc cam) n < 0 \<longleftrightarrow> dot (vsub (vadd oc fc) cam) n < 0"
  unfolding view_vector_def Let_def by (rule dot_sdiv_left_sign) (rule view_length_pos)

lemma vnorm_axis:
  "vnorm (x, 0, 0) = \<bar>x\<bar>" "vnorm (0, y, 0) = \<bar>y\<bar>" "vnorm (0, 0, z) = \<bar>z\<bar>"
  by simp_all

subsection \<open>Evaluating a face\<close>

lemma is_face_visible_eval:
  assumes "k < length (faces P)" "faces P ! k = face" "3 \<le> length face"
    and "sum_vertices (vertices_local P) face (0, 0, 0) = Inr tot"
    and "py_get (vertices_local P) (face ! 0) = Inr v0"
    and "py_get (vertices_local P) (face ! 1) = Inr v1"
    and "py_get (vertices_local P) (face ! 2) = Inr v2"
  shows "is_face_visible P k cam
     = Inr (dot (vsub (vadd (obj_center P) (sdiv tot (real (length face)))) cam)
              (if vnorm (cross (vsub v1 v0) (vsub v2 v0)) < 1 / 10 ^ 6 then (0, 0, 1)
               else cross (vsub v1 v0) (vsub v2 v0)) < 0)"
proof -
  let ?c = "cross (vsub v1 v0) (vsub v2 v0)"
  let ?fc = "sdiv tot (real (length face))"
  have g: "py_get (faces P) (int k) = Inr face" using assms(1,2) by (simp add: py_get_def)
  have ne: "face \<noteq> []" using assms(3) by auto
  have c: "compute_face_center (vertices_local P) face = Inr ?fc"
    using assms(4) ne by (simp add: compute_face_center_def)
  have n: "compute_face_normal (vertices_local P) face
      = Inr (if vnorm ?c < 1 / 10 ^ 6 then (0, 0, 1) else sdiv ?c (vnorm ?c))"
    using assms(3,5,6,7) by (simp add: compute_face_normal_def Let_def)
  have v: "is_face_visible P k cam = Inr (dot (view_vector (obj_center P) ?fc cam)
      (if vnorm ?c < 1 / 10 ^ 6 then (0, 0, 1) else sdiv ?c (vnorm ?c)) < 0)"
    by (simp only: is_face_visible_def g c n sum.case)
  show ?thesis
  proof (cases "vnorm ?c < 1 / 10 ^ 6")
    case True
    then show ?thesis unfolding v by (simp only: view_vector_sign if_True)
  next
    case False
    then have pos: "0 < vnorm ?c" by simp
    have "dot (view_vector (obj_center P) ?fc cam) (sdiv ?c (vnorm ?c)) < 0
        \<longleftrightarrow> dot (vsub (vadd (obj_center P) ?fc) cam) ?c < 0"
      unfolding dot_sdiv_right using pos by (simp add: divide_less_0_iff view_vector_sign)
    with False show ?thesis unfolding v by (simp only: if_False)
  qed
qed

lemma correct_face_eval:
  assumes "py_get face 0 = Inr i0" "py_get vs i0 = Inr v0"
    and "py_get face 1 = Inr i1" "py_get vs i1 = Inr v1"
    and "py_get face 2 = Inr i2" "py_get vs i2 = Inr v2"
    and "sum_vertices vs face (0, 0, 0) = Inr tot"
  shows "correct_face vs center face
     = Inr (if vnorm (cross (vsub v1 v0) (vsub v2 v1)) < 1 / 10 ^ 6 then face
            else if dot (cross (vsub v1 v0) (vsub v2 v1))
                      (vsub (sdiv tot (real (length face))) center) < 0
                 then rev face else face)"
proof -
  let ?c = "cross (vsub v1 v0) (vsub v2 v1)"
  let ?d = "vsub (sdiv tot (real (length face))) center"
  show ?thesis
  proof (cases "vnorm ?c < 1 / 10 ^ 6")
    case True
    then show ?thesis using assms by (simp add: correct_face_def Let_def)
  next
    case False
    then have pos: "0 < vnorm ?c" by simp
    have "dot (sdiv ?c (vnorm ?c)) (sdiv ?d (vnorm ?d + 1 / 10 ^ 6)) < 0 \<longleftrightarrow> dot ?c ?d < 0"
      using pos view_length_pos by (rule dot_sdiv_sign)
    then show ?thesis using assms False by (simp add: correct_face_def Let_def)
  qed
qed

subsection \<open>Construction succeeds when every index is valid\<close>

lemma create_edges_ok:
  "(\<And>e. e \<in> set es \<Longrightarrow> (\<exists>v. py_get vs (fst e) = Inr v) \<and> (\<exists>v. py_get vs (snd e) = Inr v)) \<Longrightarrow>
   \<exists>objs'. create_edges vs col w es objs = Inr objs'"
proof (induction es arbitrary: objs)
  case Nil
  then show ?case by simp
next
  case (Cons x es)
  have "(\<exists>v. py_get vs (fst x) = Inr v) \<and> (\<exists>v. py_get vs (snd x) = Inr v)"
    by (rule Cons.prems) simp
  then obtain a b where ab: "py_get vs (fst x) = Inr a" "py_get vs (snd x) = Inr b" by blast
  have "\<exists>objs'. create_edges vs col w es
      (objs(x \<mapsto> \<lparr> l_start = a, l_end = b, l_stroke_color = col,
                    l_stroke_opacity = 1, l_stroke_width = w \<rparr>)) = Inr objs'"
    by (rule Cons.IH) (rule Cons.prems, simp)
  with ab show ?case by simp
qed

lemma face_edge_ends:
  assumes "e \<in> set (face_edges face)"
  shows "fst e \<in> set face \<and> snd e \<in> set face"
proof -
  from assms obtain p where p: "p < length face"
    "e = sorted_edge (face ! p) (face ! ((p + 1) mod length face))"
    by (auto simp: face_edges_def)
  have "(p + 1) mod length face < length face"
    using p(1) by (intro mod_less_divisor) auto
  with p show ?thesis by (auto simp: sorted_edge_def)
qed

lemma init_ok:
  assumes "\<And>face i. face \<in> set fcs \<Longrightarrow> i \<in> set face \<Longrightarrow> \<exists>v. py_get vs i = Inr v"
  shows "\<exists>P. PolyhedronBase_init vs fcs ec vc dc sw oc = Inr P"
proof -
  obtain es m where t: "build_edge_topology fcs = (es, m)" by (cases "build_edge_topology fcs")
  have "\<exists>objs'. create_edges vs ec sw es Map.empty = Inr objs'"
  proof (rule create_edges_ok)
    fix e assume "e \<in> set es"
    then obtain face where "face \<in> set fcs" "e \<in> set (face_edges face)"
      using build_edge_topology_props(1) [OF t] by blast
    with face_edge_ends [of e face] assms
    show "(\<exists>v. py_get vs (fst e) = Inr v) \<and> (\<exists>v. py_get vs (snd e) = Inr v)" by blast
  qed
  then obtain objs' where "create_edges vs ec sw es Map.empty = Inr objs'" ..
  with t show ?thesis by (simp add: PolyhedronBase_init_def)
qed

subsection \<open>A single triangle\<close>

lemma face_edges_triangle: "face_edges [0, 1, 2] = [(0, 1), (1, 2), (0, 2)]"
  by (simp add: face_edges_def sorted_edge_def upt_rec)

lemma triangle_init:
  "\<exists>P. PolyhedronBase_init [a, b, c] [[0, 1, 2]] WHITE YELLOW GRAY 4 oc = Inr P"
proof (rule init_ok)
  fix face :: "int list" and i :: int
  assume "face \<in> set [[0, 1, 2]]" "i \<in> set face"
  then have "i = 0 \<or> i = 1 \<or> i = 2" by auto
  then show "\<exists>v. py_get [a, b, c] i = Inr v"
    by (elim disjE) (simp_all add: py_get_def del: split_paired_Ex)
qed

lemma triangle_visible:
  assumes "PolyhedronBase_init [a, b, c] [[0, 1, 2]] WHITE YELLOW GRAY 4 oc = Inr P"
  shows "is_face_visible P 0 cam
     = Inr (dot (vsub (vadd oc (sdiv (vadd (vadd (vadd (0, 0, 0) a) b) c) 3)) cam)
              (if vnorm (cross (vsub b a) (vsub c a)) < 1 / 10 ^ 6 then (0, 0, 1)
               else cross (vsub b a) (vsub c a)) < 0)"
proof -
  note f = init_fields [OF assms]
  have "is_face_visible P 0 cam
     = Inr (dot (vsub (vadd (obj_center P) (sdiv (vadd (vadd (vadd (0, 0, 0) a) b) c)
                (real (length [0::int, 1, 2])))) cam)
              (if vnorm (cross (vsub b a) (vsub c a)) < 1 / 10 ^ 6 then (0, 0, 1)
               else cross (vsub b a) (vsub c a)) < 0)"
    by (rule is_face_visible_eval) (simp_all add: f py_get_def)
  then show ?thesis by (simp add: f)
qed

text \<open>
  A unit right triangle in the plane \<open>z = 0\<close>, seen from \<open>(0, 0, 10)\<close>: its face is
  visible and its edge \<open>(0, 1)\<close> is solid.
\<close>

theorem update_dashed_lines_policy_witness:
  "\<exists>P P' seg. PolyhedronBase_init [(0, 0, 0), (1, 0, 0), (0, 1, 0)] [[0, 1, 2]]
                  WHITE YELLOW GRAY 4 (1 / 2, 1 / 2, 0) = Inr P
     \<and> update_dashed_lines P (Some (0, 0, 10)) = Inr P'
     \<and> edge_objects P' (0, 1) = Some seg \<and> is_solid P seg \<and> \<not> is_dashed P seg"
proof -
  from triangle_init obtain P
    where P: "PolyhedronBase_init [(0, 0, 0), (1, 0, 0), (0, 1, 0)] [[0, 1, 2]]
                  WHITE YELLOW GRAY 4 (1 / 2, 1 / 2, 0) = Inr P" by blast
  have cam: "(0, 0, 10) = (case Some (0, 0, 10) of None \<Rightarrow> get_camera_position | Some c \<Rightarrow> c)"
    by simp
  have v: "is_face_visible P 0 (0, 0, 10) = Inr True"
    unfolding triangle_visible [OF P] by (simp add: vnorm_axis del: vnorm.simps)
  from update_dashed_lines_policy [OF P cam] obtain P'
    where u: "update_dashed_lines P (Some (0, 0, 10)) = Inr P'"
      and es: "set (edges P) = (\<Union>face \<in> set [[0, 1, 2]]. set (face_edges face))"
      and st: "\<forall>e \<in> set (edges P). \<exists>seg. edge_objects P' e = Some seg
          \<and> (is_dashed P seg \<longleftrightarrow>
               (\<forall>k < length [[0::int, 1, 2]]. e \<in> set (face_edges ([[0, 1, 2]] ! k))
                   \<longrightarrow> is_face_visible P k (0, 0, 10) = Inr False))
          \<and> (is_solid P seg \<longleftrightarrow>
               \<not> (\<forall>k < length [[0::int, 1, 2]]. e \<in> set (face_edges ([[0, 1, 2]] ! k))
                   \<longrightarrow> is_face_visible P k (0, 0, 10) = Inr False))"
    by blast
  have "(0, 1) \<in> set (edges P)" unfolding es by (simp add: face_edges_triangle)
  with st obtain seg where seg: "edge_objects P' (0, 1) = Some seg"
    "is_dashed P seg \<longleftrightarrow>
       (\<forall>k < length [[0::int, 1, 2]]. (0, 1) \<in> set (face_edges ([[0, 1, 2]] ! k))
           \<longrightarrow> is_face_visible P k (0, 0, 10) = Inr False)"
    "is_solid P seg \<longleftrightarrow>
       \<not> (\<forall>k < length [[0::int, 1, 2]]. (0, 1) \<in> set (face_edges ([[0, 1, 2]] ! k))
           \<longrightarrow> is_face_visible P k (0, 0, 10) = Inr False)"
    by blast
  have "\<not> (\<forall>k < length [[0::int, 1, 2]]. (0, 1) \<in> set (face_edges ([[0, 1, 2]] ! k))
           \<longrightarrow> is_face_visible P k (0, 0, 10) = Inr False)"
    using v by (auto simp: face_edges_triangle)
  with seg have "is_solid P seg" "\<not> is_dashed P seg" by simp_all
  with P u seg(1) show ?thesis by blast
qed

text \<open>
  Claim C1 as stated (the normal always by the right-hand rule) fails on a small face.
  The triangle \<open>(0, 0, 0)\<close>, \<open>(0, 0.0005, 0)\<close>, \<open>(0.0005, 0, 0)\<close> has the right-hand
  normal \<open>(0, 0, -1)\<close>, so from the camera \<open>(0, 0, -10)\<close> it is front-facing in the
  claim's sense (the dot product is negative); but its cross product is \<open>2.5e-7\<close> long, the
  source takes \<open>(0, 0, 1)\<close> for the normal, finds the face not visible and draws the edge
  \<open>(0, 1)\<close> in the hidden style.
\<close>

theorem update_dashed_lines_normal_counterexample:
  "\<exists>P P' seg. PolyhedronBase_init [(0, 0, 0), (0, 1 / 2000, 0), (1 / 2000, 0, 0)] [[0, 1, 2]]
                  WHITE YELLOW GRAY 4 (1 / 4000, 1 / 4000, 0) = Inr P
     \<and> update_dashed_lines P (Some (0, 0, - 10)) = Inr P'
     \<and> faces P = [[0, 1, 2]] \<and> (0, 1) \<in> set (face_edges (faces P ! 0))
     \<and> edge_objects P' (0, 1) = Some seg \<and> is_dashed P seg
     \<and> compute_face_center (vertices_local P) (faces P ! 0) = Inr (1 / 6000, 1 / 6000, 0)
     \<and> dot (view_vector (obj_center P) (1 / 6000, 1 / 6000, 0) (0, 0, - 10))
           (right_hand_normal (0, 0, 0) (0, 1 / 2000, 0) (1 / 2000, 0, 0)) < 0"
proof -
  from triangle_init obtain P
    where P: "PolyhedronBase_init [(0, 0, 0), (0, 1 / 2000, 0), (1 / 2000, 0, 0)] [[0, 1, 2]]
                  WHITE YELLOW GRAY 4 (1 / 4000, 1 / 4000, 0) = Inr P" by blast
  note f = init_fields [OF P]
  have wf: "well_formed P" using P by (rule init_well_formed)
  have v: "is_face_visible P 0 (0, 0, - 10) = Inr False"
    unfolding triangle_visible [OF P] by (simp add: vnorm_axis del: vnorm.simps)
  from well_formed_update [OF wf, of "(0, 0, - 10)" "Some (0, 0, - 10)"] obtain objs'
    where u: "update_dashed_lines P (Some (0, 0, - 10)) = Inr (P\<lparr>edge_objects := objs'\<rparr>)"
      and each: "\<forall>e \<in> set (edges P). \<exists>seg. edge_objects P e = Some seg
          \<and> objs' e = Some (if (\<forall>k < length (faces P). e \<in> set (face_edges (faces P ! k))
                                   \<longrightarrow> is_face_visible P k (0, 0, - 10) = Inr False)
                            then dashed_style P seg else solid_style P seg)"
    by auto
  have "set (edges P) = set (face_edges [0, 1, 2])"
    using build_edge_topology_props(1) [OF f(8)] by simp
  then have "(0, 1) \<in> set (edges P)" by (simp add: face_edges_triangle)
  with each obtain seg0 where "objs' (0, 1) = Some (if (\<forall>k < length (faces P).
      (0, 1) \<in> set (face_edges (faces P ! k)) \<longrightarrow> is_face_visible P k (0, 0, - 10) = Inr False)
      then dashed_style P seg0 else solid_style P seg0)" by blast
  moreover have "\<forall>k < length (faces P). (0, 1) \<in> set (face_edges (faces P ! k))
      \<longrightarrow> is_face_visible P k (0, 0, - 10) = Inr False"
    unfolding f(2) using v by simp
  ultimately have d: "objs' (0, 1) = Some (dashed_style P seg0)" by simp
  have c: "compute_face_center (vertices_local P) (faces P ! 0) = Inr (1 / 6000, 1 / 6000, 0)"
    unfolding f(1,2) by (simp add: compute_face_center_def py_get_def)
  have n: "dot (view_vector (obj_center P) (1 / 6000, 1 / 6000, 0) (0, 0, - 10))
           (right_hand_normal (0, 0, 0) (0, 1 / 2000, 0) (1 / 2000, 0, 0)) < 0"
    unfolding view_vector_sign f(7)
    by (simp add: right_hand_normal_def Let_def vnorm_axis del: vnorm.simps)
  have e: "(0, 1) \<in> set (face_edges (faces P ! 0))" unfolding f(2) by (simp add: face_edges_triangle)
  show ?thesis
    using P u f(2) e d c n style_facts(1) [of P seg0]
    by (intro exI [of _ P] exI [of _ "P\<lparr>edge_objects := objs'\<rparr>"] exI [of _ "dashed_style P seg0"]) simp
qed

text \<open>The unit triangle again: constructed, updated twice with the default camera.\<close>

theorem update_dashed_lines_idempotent_witness:
  "\<exists>P P'. PolyhedronBase_init [(0, 0, 0), (1, 0, 0), (0, 1, 0)] [[0, 1, 2]]
                  WHITE YELLOW GRAY 4 (1 / 2, 1 / 2, 0) = Inr P
     \<and> update_dashed_lines P None = Inr P' \<and> update_dashed_lines P' None = Inr P'
     \<and> faces P' = [[0, 1, 2]]"
proof -
  from triangle_init obtain P
    where P: "PolyhedronBase_init [(0, 0, 0), (1, 0, 0), (0, 1, 0)] [[0, 1, 2]]
                  WHITE YELLOW GRAY 4 (1 / 2, 1 / 2, 0) = Inr P" by blast
  have r: "reachable P" using P by (rule reachable.constructed)
  from update_dashed_lines_idempotent [OF r, of None] init_fields(2) [OF P] P
  show ?thesis by auto
qed

section \<open>Properties of CubeGeometry\<close>

lemma cube_vertices_eq:
  "cube_vertices L (ox, oy, oz) =
     [(ox, oy, oz), (L + ox, oy, oz), (L + ox, L + oy, oz), (ox, L + oy, oz),
      (ox, oy, L + oz), (L + ox, oy, L + oz), (L + ox, L + oy, L + oz), (ox, L + oy, L + oz)]"
  by (simp add: cube_vertices_def vertex_names_def standard_vertices_def)

lemma cube_center:
  "vertices_center (cube_vertices L (ox, oy, oz)) = Inr (ox + L / 2, oy + L / 2, oz + L / 2)"
  by (simp add: cube_vertices_eq vertices_center_def)

lemma py_get_cube:
  "py_get (cube_vertices L (ox, oy, oz)) 0 = Inr (ox, oy, oz)"
  "py_get (cube_vertices L (ox, oy, oz)) 1 = Inr (L + ox, oy, oz)"
  "py_get (cube_vertices L (ox, oy, oz)) 2 = Inr (L + ox, L + oy, oz)"
  "py_get (cube_vertices L (ox, oy, oz)) 3 = Inr (ox, L + oy, oz)"
  "py_get (cube_vertices L (ox, oy, oz)) 4 = Inr (ox, oy, L + oz)"
  "py_get (cube_vertices L (ox, oy, oz)) 5 = Inr (L + ox, oy, L + oz)"
  "py_get (cube_vertices L (ox, oy, oz)) 6 = Inr (L + ox, L + oy, L + oz)"
  "py_get (cube_vertices L (ox, oy, oz)) 7 = Inr (ox, L + oy, L + oz)"
  by (simp_all add: cube_vertices_eq py_get_def)

lemma py_get_face4:
  "py_get [a, b, c, d] 0 = Inr a" "py_get [a, b, c, d] 1 = Inr b" "py_get [a, b, c, d] 2 = Inr c"
  by (simp_all add: py_get_def)

lemma side_sq:
  fixes L :: real
  assumes "1 / 1000 \<le> L"
  shows "\<not> \<bar>L * L\<bar> < 1 / 10 ^ 6" "\<not> \<bar>- (L * L)\<bar> < 1 / 10 ^ 6" "0 < L"
proof -
  have "(1 / 1000) * (1 / 1000) \<le> L * L" using assms by (intro mult_mono) simp_all
  then show "\<not> \<bar>L * L\<bar> < 1 / 10 ^ 6" "\<not> \<bar>- (L * L)\<bar> < 1 / 10 ^ 6" by simp_all
  show "0 < L" using assms by simp
qed

lemma cube_sum_bottom:
  "sum_vertices (cube_vertices L (ox, oy, oz)) [0, 1, 2, 3] (0, 0, 0)
     = Inr (ox + (L + ox) + (L + ox) + ox, oy + oy + (L + oy) + (L + oy), oz + oz + oz + oz)"
  by (simp add: py_get_cube)

lemma cube_correct_face_bottom:
  assumes "1 / 1000 \<le> L"
  shows "correct_face (cube_vertices L (ox, oy, oz)) (ox + L / 2, oy + L / 2, oz + L / 2) [0, 1, 2, 3]
     = Inr [3, 2, 1, 0]"
  apply (subst correct_face_eval [OF py_get_face4(1) py_get_cube(1) py_get_face4(2) py_get_cube(2)
        py_get_face4(3) py_get_cube(3) cube_sum_bottom])
  using side_sq [OF assms]
  by (simp add: vnorm_axis add_divide_distrib mult_less_0_iff not_less del: vnorm.simps)

lemma cube_sum_top:
  "sum_vertices (cube_vertices L (ox, oy, oz)) [4, 5, 6, 7] (0, 0, 0)
     = Inr (ox + (L + ox) + (L + ox) + ox, oy + oy + (L + oy) + (L + oy), (L + oz) + (L + oz) + (L + oz) + (L + oz))"
  by (simp add: py_get_cube)

lemma cube_correct_face_top:
  assumes "1 / 1000 \<le> L"
  shows "correct_face (cube_vertices L (ox, oy, oz)) (ox + L / 2, oy + L / 2, oz + L / 2) [4, 5, 6, 7]
     = Inr [4, 5, 6, 7]"
  apply (subst correct_face_eval [OF py_get_face4(1) py_get_cube(5) py_get_face4(2) py_get_cube(6)
        py_get_face4(3) py_get_cube(7) cube_sum_top])
  using side_sq [OF assms]
  by (simp add: vnorm_axis add_divide_distrib mult_less_0_iff not_less del: vnorm.simps)

lemma cube_sum_front:
  "sum_vertices (cube_vertices L (ox, oy, oz)) [0, 1, 5, 4] (0, 0, 0)
     = Inr (ox + (L + ox) + (L + ox) + ox, oy + oy + oy + oy, oz + oz + (L + oz) + (L + oz))"
  by (simp add: py_get_cube)

lemma cube_correct_face_front:
  assumes "1 / 1000 \<le> L"
  shows "correct_face (cube_vertices L (ox, oy, oz)) (ox + L / 2, oy + L / 2, oz + L / 2) [0, 1, 5, 4]
     = Inr [0, 1, 5, 4]"
  apply (subst correct_face_eval [OF py_get_face4(1) py_get_cube(1) py_get_face4(2) py_get_cube(2)
        py_get_face4(3) py_get_cube(6) cube_sum_front])
  using side_sq [OF assms]
  by (simp add: vnorm_axis add_divide_distrib mult_less_0_iff not_less del: vnorm.simps)

lemma cube_sum_right:
  "sum_vertices (cube_vertices L (ox, oy, oz)) [1, 2, 6, 5] (0, 0, 0)
     = Inr ((L + ox) + (L + ox) + (L + ox) + (L + ox), oy + (L + oy) + (L + oy) + oy, oz + oz + (L + oz) + (L + oz))"
  by (simp add: py_get_cube)

lemma cube_correct_face_right:
  assumes "1 / 1000 \<le> L"
  shows "correct_face (cube_vertices L (ox, oy, oz)) (ox + L / 2, oy + L / 2, oz + L / 2) [1, 2, 6, 5]
     = Inr [1, 2, 6, 5]"
  apply (subst correct_face_eval [OF py_get_face4(1) py_get_cube(2) py_get_face4(2) py_get_cube(3)
        py_get_face4(3) py_get_cube(7) cube_sum_right])
  using side_sq [OF assms]
  by (simp add: vnorm_axis add_divide_distrib mult_less_0_iff not_less del: vnorm.simps)

lemma cube_sum_back:
  "sum_vertices (cube_vertices L (ox, oy, oz)) [2, 3, 7, 6] (0, 0, 0)
     = Inr ((L + ox) + ox + ox + (L + ox), (L + oy) + (L + oy) + (L + oy) + (L + oy), oz + oz + (L + oz) + (L + oz))"
  by (simp add: py_get_cube)

lemma cube_correct_face_back:
  assumes "1 / 1000 \<le> L"
  shows "correct_face (cube_vertices L (ox, oy, oz)) (ox + L / 2, oy + L / 2, oz + L / 2) [2, 3, 7, 6]
     = Inr [2, 3, 7, 6]"
  apply (subst correct_face_eval [OF py_get_face4(1) py_get_cube(3) py_get_face4(2) py_get_cube(4)
        py_get_face4(3) py_get_cube(8) cube_sum_back])
  using side_sq [OF assms]
  by (simp add: vnorm_axis add_divide_distrib mult_less_0_iff not_less del: vnorm.simps)

lemma cube_sum_left:
  "sum_vertices (cube_vertices L (ox, oy, oz)) [3, 0, 4, 7] (0, 0, 0)
     = Inr (ox + ox + ox + ox, (L + oy) + oy + oy + (L + oy), oz + oz + (L + oz) + (L + oz))"
  by (simp add: py_get_cube)

lemma cube_correct_face_left:
  assumes "1 / 1000 \<le> L"
  shows "correct_face (cube_vertices L (ox, oy, oz)) (ox + L / 2, oy + L / 2, oz + L / 2) [3, 0, 4, 7]
     = Inr [3, 0, 4, 7]"
  apply (subst correct_face_eval [OF py_get_face4(1) py_get_cube(4) py_get_face4(2) py_get_cube(1)
        py_get_face4(3) py_get_cube(5) cube_sum_left])
  using side_sq [OF assms]
  by (simp add: vnorm_axis add_divide_distrib mult_less_0_iff not_less del: vnorm.simps)

lemma cube_correct_face_normals:
  assumes "1 / 1000 \<le> L"
  shows "correct_face_normals (cube_vertices L (ox, oy, oz)) cube_faces
     = Inr [[3, 2, 1, 0], [4, 5, 6, 7], [0, 1, 5, 4], [1, 2, 6, 5], [2, 3, 7, 6], [3, 0, 4, 7]]"
  using assms
  by (simp add: correct_face_normals_def cube_center cube_faces_def cube_correct_face_bottom
      cube_correct_face_top cube_correct_face_front cube_correct_face_right
      cube_correct_face_back cube_correct_face_left)

lemma cube_origin:
  assumes "upper origin_point \<in> set vertex_names"
  shows "\<exists>ax ay az. dict_get (standard_vertices L) (upper origin_point) = Inr (ax, ay, az)"
  using assms by (auto simp: vertex_names_def dict_get_def standard_vertices_def)

lemma cube_index_valid:
  assumes "face \<in> set corrected_cube_faces \<or> face \<in> set cube_faces" "i \<in> set face"
  shows "\<exists>v. py_get (cube_vertices L (ox, oy, oz)) i = Inr v"
proof -
  from assms have "i \<in> {0, 1, 2, 3, 4, 5, 6, 7}" by (auto simp: cube_faces_def)
  then show ?thesis using py_get_cube [of L ox oy oz] by auto
qed

lemma cube_init:
  assumes "dict_get (standard_vertices L) (upper origin_point) = Inr (ax, ay, az)"
    and "correct_face_normals (cube_vertices L (- ax, - ay, - az)) cube_faces = Inr fcs"
    and "fcs = corrected_cube_faces \<or> fcs = cube_faces"
  shows "\<exists>P. CubeGeometry_init L origin_point oc = Inr P
     \<and> PolyhedronBase_init (cube_vertices L (- ax, - ay, - az)) fcs WHITE YELLOW GRAY 4 oc = Inr P"
proof -
  have "\<exists>P. PolyhedronBase_init (cube_vertices L (- ax, - ay, - az)) fcs WHITE YELLOW GRAY 4 oc = Inr P"
  proof (rule init_ok)
    fix face i assume "face \<in> set fcs" "i \<in> set face"
    with assms(3) cube_index_valid [of face i L "- ax" "- ay" "- az"]
    show "\<exists>v. py_get (cube_vertices L (- ax, - ay, - az)) i = Inr v" by blast
  qed
  then obtain P
    where P: "PolyhedronBase_init (cube_vertices L (- ax, - ay, - az)) fcs WHITE YELLOW GRAY 4 oc = Inr P" ..
  then have "CubeGeometry_init L origin_point oc = Inr P"
    using assms(1,2) by (simp add: CubeGeometry_init_def)
  with P show ?thesis by blast
qed

lemma cube_outward:
  assumes "0 < L" "face \<in> set corrected_cube_faces"
  shows "normal_points_outward (cube_vertices L (ox, oy, oz)) face"
  using assms
  by (auto simp: normal_points_outward_def cube_vertices_eq add_divide_distrib
      zero_le_mult_iff)

text \<open>
  Claim C10, as the code has it.  For every side length of at least \<open>0.001\<close> and every
  valid origin (one of the eight vertex names, in either case), the cube is constructed
  with the bottom face reversed and the other five faces as listed, and every one of the
  six faces has an outward normal.
\<close>

theorem CubeGeometry_normals_outward:
  assumes "1 / 1000 \<le> L" "upper origin_point \<in> set vertex_names"
  shows "\<exists>P. CubeGeometry_init L origin_point oc = Inr P
     \<and> faces P = [[3, 2, 1, 0], [4, 5, 6, 7], [0, 1, 5, 4], [1, 2, 6, 5], [2, 3, 7, 6], [3, 0, 4, 7]]
     \<and> (\<forall>face \<in> set (faces P). normal_points_outward (vertices_local P) face)"
proof -
  from cube_origin [OF assms(2)] obtain ax ay az
    where o: "dict_get (standard_vertices L) (upper origin_point) = Inr (ax, ay, az)" by blast
  have c: "correct_face_normals (cube_vertices L (- ax, - ay, - az)) cube_faces
      = Inr corrected_cube_faces" using assms(1) by (rule cube_correct_face_normals)
  from cube_init [OF o c] obtain P where P: "CubeGeometry_init L origin_point oc = Inr P"
    "PolyhedronBase_init (cube_vertices L (- ax, - ay, - az)) corrected_cube_faces
       WHITE YELLOW GRAY 4 oc = Inr P" by blast
  note f = init_fields [OF P(2)]
  have "0 < L" using assms(1) by simp
  then have "\<forall>face \<in> set (faces P). normal_points_outward (vertices_local P) face"
    unfolding f(1,2) using cube_outward by blast
  with P(1) f(2) show ?thesis by blast
qed

text \<open>The cube of side 2 with the origin at \<open>A1\<close>.\<close>

theorem CubeGeometry_normals_outward_witness:
  "\<exists>P. CubeGeometry_init 2 ''a1'' (0, 0, 0) = Inr P
     \<and> faces P = [[3, 2, 1, 0], [4, 5, 6, 7], [0, 1, 5, 4], [1, 2, 6, 5], [2, 3, 7, 6], [3, 0, 4, 7]]
     \<and> list_all (normal_points_outward (vertices_local P)) (faces P)"
proof -
  have a: "(1::real) / 1000 \<le> 2" by simp
  have b: "upper ''a1'' \<in> set vertex_names"
    by (simp add: upper_def upper_char_def vertex_names_def)
  from CubeGeometry_normals_outward [OF a b, of "(0, 0, 0)"]
  show ?thesis by (auto simp: list_all_iff)
qed

lemma tiny_correct_face_normals:
  "correct_face_normals (cube_vertices (1 / 2000) (0, 0, 0)) cube_faces = Inr cube_faces"
proof -
  have t: "\<bar>(1::real) / 2000 * (1 / 2000)\<bar> < 1 / 10 ^ 6" by simp
  have 1: "correct_face (cube_vertices (1 / 2000) (0, 0, 0)) c [0, 1, 2, 3] = Inr [0, 1, 2, 3]" for c
    by (subst correct_face_eval [OF py_get_face4(1) py_get_cube(1) py_get_face4(2) py_get_cube(2)
          py_get_face4(3) py_get_cube(3) cube_sum_bottom])
       (simp add: vnorm_axis del: vnorm.simps)
  have 2: "correct_face (cube_vertices (1 / 2000) (0, 0, 0)) c [4, 5, 6, 7] = Inr [4, 5, 6, 7]" for c
    by (subst correct_face_eval [OF py_get_face4(1) py_get_cube(5) py_get_face4(2) py_get_cube(6)
          py_get_face4(3) py_get_cube(7) cube_sum_top])
       (simp add: vnorm_axis del: vnorm.simps)
  have 3: "correct_face (cube_vertices (1 / 2000) (0, 0, 0)) c [0, 1, 5, 4] = Inr [0, 1, 5, 4]" for c
    by (subst correct_face_eval [OF py_get_face4(1) py_get_cube(1) py_get_face4(2) py_get_cube(2)
          py_get_face4(3) py_get_cube(6) cube_sum_front])
       (simp add: vnorm_axis del: vnorm.simps)
  have 4: "correct_face (cube_vertices (1 / 2000) (0, 0, 0)) c [1, 2, 6, 5] = Inr [1, 2, 6, 5]" for c
    by (subst correct_face_eval [OF py_get_face4(1) py_get_cube(2) py_get_face4(2) py_get_cube(3)
          py_get_face4(3) py_get_cube(7) cube_sum_right])
       (simp add: vnorm_axis del: vnorm.simps)
  have 5: "correct_face (cube_vertices (1 / 2000) (0, 0, 0)) c [2, 3, 7, 6] = Inr [2, 3, 7, 6]" for c
    by (subst correct_face_eval [OF py_get_face4(1) py_get_cube(3) py_get_face4(2) py_get_cube(4)
          py_get_face4(3) py_get_cube(8) cube_sum_back])
       (simp add: vnorm_axis del: vnorm.simps)
  have 6: "correct_face (cube_vertices (1 / 2000) (0, 0, 0)) c [3, 0, 4, 7] = Inr [3, 0, 4, 7]" for c
    by (subst correct_face_eval [OF py_get_face4(1) py_get_cube(4) py_get_face4(2) py_get_cube(1)
          py_get_face4(3) py_get_cube(5) cube_sum_left])
       (simp add: vnorm_axis del: vnorm.simps)
  show ?thesis
    by (simp add: correct_face_normals_def cube_center cube_faces_def 1 2 3 4 5 6)
qed

text \<open>
  Claim C10 as stated (every side length above zero) fails below \<open>0.001\<close>: for the side
  length \<open>0.0005\<close> every cross product is \<open>2.5e-7\<close> long, under the guard of \<open>1e-6\<close>, so
  no face is reversed, and the bottom face \<open>[0, 1, 2, 3]\<close> keeps its inward normal.
\<close>

theorem CubeGeometry_tiny_cube_counterexample:
  "\<exists>P. CubeGeometry_init (1 / 2000) ''A'' (0, 0, 0) = Inr P
     \<and> (0::real) < 1 / 2000
     \<and> faces P ! 0 = [0, 1, 2, 3]
     \<and> \<not> normal_points_outward (vertices_local P) (faces P ! 0)"
proof -
  have o: "dict_get (standard_vertices (1 / 2000)) (upper ''A'') = Inr (0, 0, 0)"
    by (simp add: dict_get_def standard_vertices_def upper_def upper_char_def)
  have c: "correct_face_normals (cube_vertices (1 / 2000) (- 0, - 0, - 0)) cube_faces = Inr cube_faces"
    using tiny_correct_face_normals by simp
  from cube_init [OF o c, of "(0, 0, 0)"] obtain P
    where P: "CubeGeometry_init (1 / 2000) ''A'' (0, 0, 0) = Inr P"
      "PolyhedronBase_init (cube_vertices (1 / 2000) (- 0, - 0, - 0)) cube_faces
         WHITE YELLOW GRAY 4 (0, 0, 0) = Inr P" by blast
  note f = init_fields [OF P(2)]
  have "\<not> normal_points_outward (cube_vertices (1 / 2000) (0, 0, 0)) [0, 1, 2, 3]"
    by (simp add: normal_points_outward_def cube_vertices_eq)
  then have "\<not> normal_points_outward (vertices_local P) (faces P ! 0)"
    unfolding f(1,2) by (simp add: cube_faces_def)
  moreover have "faces P ! 0 = [0, 1, 2, 3]" unfolding f(2) by (simp add: cube_faces_def)
  ultimately show ?thesis using P(1) by simp
qed

lemma face_edges_cube:
  "face_edges [3, 2, 1, 0] = [(2, 3), (1, 2), (0, 1), (0, 3)]"
  "face_edges [4, 5, 6, 7] = [(4, 5), (5, 6), (6, 7), (4, 7)]"
  "face_edges [0, 1, 5, 4] = [(0, 1), (1, 5), (4, 5), (0, 4)]"
  "face_edges [1, 2, 6, 5] = [(1, 2), (2, 6), (5, 6), (1, 5)]"
  "face_edges [2, 3, 7, 6] = [(2, 3), (3, 7), (6, 7), (2, 6)]"
  "face_edges [3, 0, 4, 7] = [(0, 3), (0, 4), (4, 7), (3, 7)]"
  by (simp_all add: face_edges_def sorted_edge_def upt_rec)

lemma cube_sum_bottom_rev:
  "sum_vertices (cube_vertices L (ox, oy, oz)) [3, 2, 1, 0] (0, 0, 0)
     = Inr (ox + (L + ox) + (L + ox) + ox, L + oy + (L + oy) + oy + oy, oz + oz + oz + oz)"
  by (simp add: py_get_cube)

text \<open>Visibility of the six faces of a corrected cube, by the side of the camera.\<close>

lemma cube_visibility:
  assumes L: "1 / 1000 \<le> L"
    and vs: "vertices_local P = cube_vertices L (ax, ay, az)"
    and fcs: "faces P = corrected_cube_faces"
    and oc: "obj_center P = (ox, oy, oz)"
  shows "is_face_visible P 0 (cx, cy, cz) = Inr (cz < oz + az)"
    and "is_face_visible P 1 (cx, cy, cz) = Inr (oz + az + L < cz)"
    and "is_face_visible P 2 (cx, cy, cz) = Inr (cy < oy + ay)"
    and "is_face_visible P 3 (cx, cy, cz) = Inr (ox + ax + L < cx)"
    and "is_face_visible P 4 (cx, cy, cz) = Inr (oy + ay + L < cy)"
    and "is_face_visible P 5 (cx, cy, cz) = Inr (cx < ox + ax)"
proof -
  note sq = side_sq [OF L]
  have len: "\<And>k. k < 6 \<Longrightarrow> k < length (faces P)" by (simp add: fcs)
  show "is_face_visible P 0 (cx, cy, cz) = Inr (cz < oz + az)"
    apply (subst is_face_visible_eval [where face = "[3, 2, 1, 0]" and tot = "(ax + (L + ax) + (L + ax) + ax,
        L + ay + (L + ay) + ay + ay, az + az + az + az)"
        and ?v0.0 = "(ax, L + ay, az)" and ?v1.0 = "(L + ax, L + ay, az)" and ?v2.0 = "(L + ax, ay, az)"])
    using sq
    apply (auto simp add: fcs vs oc py_get_cube cube_sum_bottom_rev vnorm_axis add_divide_distrib
        mult_less_0_iff zero_less_mult_iff simp del: vnorm.simps)
    done
  show "is_face_visible P 1 (cx, cy, cz) = Inr (oz + az + L < cz)"
    apply (subst is_face_visible_eval [where face = "[4, 5, 6, 7]" and tot = "(ax + (L + ax) + (L + ax) + ax,
        ay + ay + (L + ay) + (L + ay), L + az + (L + az) + (L + az) + (L + az))"
        and ?v0.0 = "(ax, ay, L + az)" and ?v1.0 = "(L + ax, ay, L + az)" and ?v2.0 = "(L + ax, L + ay, L + az)"])
    using sq
    apply (auto simp add: fcs vs oc py_get_cube cube_sum_top vnorm_axis add_divide_distrib
        mult_less_0_iff zero_less_mult_iff simp del: vnorm.simps)
    done
  show "is_face_visible P 2 (cx, cy, cz) = Inr (cy < oy + ay)"
    apply (subst is_face_visible_eval [where face = "[0, 1, 5, 4]" and tot = "(ax + (L + ax) + (L + ax) + ax,
        ay + ay + ay + ay, az + az + (L + az) + (L + az))"
        and ?v0.0 = "(ax, ay, az)" and ?v1.0 = "(L + ax, ay, az)" and ?v2.0 = "(L + ax, ay, L + az)"])
    using sq
    apply (auto simp add: fcs vs oc py_get_cube cube_sum_front vnorm_axis add_divide_distrib
        mult_less_0_iff zero_less_mult_iff simp del: vnorm.simps)
    done
  show "is_face_visible P 3 (cx, cy, cz) = Inr (ox + ax + L < cx)"
    apply (subst is_face_visible_eval [where face = "[1, 2, 6, 5]" and tot = "(L + ax + (L + ax) + (L + ax) + (L + ax),
        ay + (L + ay) + (L + ay) + ay, az + az + (L + az) + (L + az))"
        and ?v0.0 = "(L + ax, ay, az)" and ?v1.0 = "(L + ax, L + ay, az)" and ?v2.0 = "(L + ax, L + ay, L + az)"])
    using sq
    apply (auto simp add: fcs vs oc py_get_cube cube_sum_right vnorm_axis add_divide_distrib
        mult_less_0_iff zero_less_mult_iff simp del: vnorm.simps)
    done
  show "is_face_visible P 4 (cx, cy, cz) = Inr (oy + ay + L < cy)"
    apply (subst is_face_visible_eval [where face = "[2, 3, 7, 6]" and tot = "(L + ax + ax + ax + (L + ax),
        L + ay + (L + ay) + (L + ay) + (L + ay), az + az + (L + az) + (L + az))"
        and ?v0.0 = "(L + ax, L + ay, az)" and ?v1.0 = "(ax, L + ay, az)" and ?v2.0 = "(ax, L + ay, L + az)"])
    using sq
    apply (auto simp add: fcs vs oc py_get_cube cube_sum_back vnorm_axis add_divide_distrib
        mult_less_0_iff zero_less_mult_iff simp del: vnorm.simps)
    done
  show "is_face_visible P 5 (cx, cy, cz) = Inr (cx < ox + ax)"
    apply (subst is_face_visible_eval [where face = "[3, 0, 4, 7]" and tot = "(ax + ax + ax + ax,
        L + ay + ay + ay + (L + ay), az + az + (L + az) + (L + az))"
        and ?v0.0 = "(ax, L + ay, az)" and ?v1.0 = "(ax, ay, az)" and ?v2.0 = "(ax, ay, L + az)"])
    using sq
    apply (auto simp add: fcs vs oc py_get_cube cube_sum_left vnorm_axis add_divide_distrib
        mult_less_0_iff zero_less_mult_iff simp del: vnorm.simps)
    done
qed

lemma all_less_6: "(\<forall>k < 6. Q k) \<longleftrightarrow> Q 0 \<and> Q 1 \<and> Q 2 \<and> Q 3 \<and> Q 4 \<and> Q (5::nat)"
proof -
  have "k < 6 \<longleftrightarrow> k = 0 \<or> k = 1 \<or> k = 2 \<or> k = 3 \<or> k = 4 \<or> k = 5" for k :: nat by arith
  then show ?thesis by auto
qed

lemma cube_edges:
  "(\<Union>face \<in> set corrected_cube_faces. set (face_edges face))
     = {(0, 1), (1, 2), (2, 3), (0, 3), (0, 4), (1, 5), (2, 6), (3, 7), (4, 5), (5, 6), (6, 7), (4, 7)}"
  by (auto simp: face_edges_cube)

lemma cube_update:
  assumes L: "1 / 1000 \<le> L"
    and origin: "dict_get (standard_vertices L) (upper origin_point) = Inr (ax, ay, az)"
    and cam: "ox - ax < cx" "cx < ox - ax + L" "oy - ay < cy" "cy < oy - ay + L" "oz - az + L < cz"
  shows "\<exists>P P'. CubeGeometry_init L origin_point (ox, oy, oz) = Inr P
     \<and> update_dashed_lines P (Some (cx, cy, cz)) = Inr P'
     \<and> set (edges P) = {(0, 1), (1, 2), (2, 3), (0, 3), (0, 4), (1, 5), (2, 6), (3, 7),
                          (4, 5), (5, 6), (6, 7), (4, 7)}
     \<and> set (face_edges (faces P ! 0)) = {(0, 1), (1, 2), (2, 3), (0, 3)}
     \<and> set (face_edges (faces P ! 1)) = {(4, 5), (5, 6), (6, 7), (4, 7)}
     \<and> (\<forall>e \<in> set (edges P). \<exists>seg. edge_objects P' e = Some seg
          \<and> (is_dashed P seg \<longleftrightarrow>
                e \<in> {(0, 1), (1, 2), (2, 3), (0, 3), (0, 4), (1, 5), (2, 6), (3, 7)})
          \<and> (is_solid P seg \<longleftrightarrow> e \<in> {(4, 5), (5, 6), (6, 7), (4, 7)}))"
proof -
  have c: "correct_face_normals (cube_vertices L (- ax, - ay, - az)) cube_faces
      = Inr corrected_cube_faces" using L by (rule cube_correct_face_normals)
  from cube_init [OF origin c] obtain P where P: "CubeGeometry_init L origin_point (ox, oy, oz) = Inr P"
    "PolyhedronBase_init (cube_vertices L (- ax, - ay, - az)) corrected_cube_faces
       WHITE YELLOW GRAY 4 (ox, oy, oz) = Inr P" by blast
  note f = init_fields [OF P(2)]
  have wf: "well_formed P" using P(2) by (rule init_well_formed)
  note vis = cube_visibility [OF L f(1) f(2) f(7), of cx cy cz]
  have v: "is_face_visible P 0 (cx, cy, cz) = Inr False" "is_face_visible P 1 (cx, cy, cz) = Inr True"
    "is_face_visible P 2 (cx, cy, cz) = Inr False" "is_face_visible P 3 (cx, cy, cz) = Inr False"
    "is_face_visible P 4 (cx, cy, cz) = Inr False" "is_face_visible P 5 (cx, cy, cz) = Inr False"
    unfolding vis using L cam by simp_all
  have es: "set (edges P) = {(0, 1), (1, 2), (2, 3), (0, 3), (0, 4), (1, 5), (2, 6), (3, 7),
                          (4, 5), (5, 6), (6, 7), (4, 7)}"
    using build_edge_topology_props(1) [OF f(8)] cube_edges by simp
  define T :: "edge set" where "T = {(4, 5), (5, 6), (6, 7), (4, 7)}"
  define B :: "edge set" where "B = {(0, 1), (1, 2), (2, 3), (0, 3), (0, 4), (1, 5), (2, 6), (3, 7)}"
  have TB: "set (edges P) = B \<union> T" "B \<inter> T = {}" by (auto simp: es T_def B_def)
  have H: "(\<forall>k < length (faces P). e \<in> set (face_edges (faces P ! k))
              \<longrightarrow> is_face_visible P k (cx, cy, cz) = Inr False)
         \<longleftrightarrow> e \<notin> T" for e
  proof -
    have len6: "length corrected_cube_faces = 6" by simp
    have v1: "is_face_visible P (Suc 0) (cx, cy, cz) = Inr True" using v(2) by simp
    show ?thesis
      unfolding f(2) len6 all_less_6 T_def by (simp add: v v1 face_edges_cube)
  qed
  from well_formed_update [OF wf, of "(cx, cy, cz)" "Some (cx, cy, cz)"] obtain objs'
    where u: "update_dashed_lines P (Some (cx, cy, cz)) = Inr (P\<lparr>edge_objects := objs'\<rparr>)"
      and each: "\<forall>e \<in> set (edges P). \<exists>seg. edge_objects P e = Some seg
          \<and> objs' e = Some (if (\<forall>k < length (faces P). e \<in> set (face_edges (faces P ! k))
                                   \<longrightarrow> is_face_visible P k (cx, cy, cz) = Inr False)
                            then dashed_style P seg else solid_style P seg)"
    by auto
  let ?P' = "P\<lparr>edge_objects := objs'\<rparr>"
  have styles: "\<exists>seg. edge_objects ?P' e = Some seg
          \<and> (is_dashed P seg \<longleftrightarrow> e \<in> B) \<and> (is_solid P seg \<longleftrightarrow> e \<in> T)"
    if e: "e \<in> set (edges P)" for e
  proof -
    from each e obtain seg where s: "objs' e = Some (if e \<notin> T
        then dashed_style P seg else solid_style P seg)" unfolding H by blast
    show ?thesis
    proof (cases "e \<in> T")
      case True
      with s have "objs' e = Some (solid_style P seg)" by simp
      moreover from True TB have "e \<notin> B" by auto
      ultimately show ?thesis using True by (simp add: style_facts)
    next
      case False
      with s have "objs' e = Some (dashed_style P seg)" by simp
      moreover from False e TB have "e \<in> B" by auto
      ultimately show ?thesis using False by (simp add: style_facts)
    qed
  qed
  have b: "set (face_edges (faces P ! 0)) = {(0, 1), (1, 2), (2, 3), (0, 3)}"
    unfolding f(2) by (auto simp: face_edges_cube)
  have t: "set (face_edges (faces P ! 1)) = {(4, 5), (5, 6), (6, 7), (4, 7)}"
    unfolding f(2) by (auto simp: face_edges_cube)
  show ?thesis
  proof (rule exI [of _ P], rule exI [of _ ?P'], intro conjI)
    show "CubeGeometry_init L origin_point (ox, oy, oz) = Inr P" by (rule P(1))
    show "update_dashed_lines P (Some (cx, cy, cz)) = Inr ?P'" by (rule u)
    show "set (edges P) = {(0, 1), (1, 2), (2, 3), (0, 3), (0, 4), (1, 5), (2, 6), (3, 7),
                          (4, 5), (5, 6), (6, 7), (4, 7)}" by (rule es)
    show "set (face_edges (faces P ! 0)) = {(0, 1), (1, 2), (2, 3), (0, 3)}" by (rule b)
    show "set (face_edges (faces P ! 1)) = {(4, 5), (5, 6), (6, 7), (4, 7)}" by (rule t)
    show "\<forall>e \<in> set (edges P). \<exists>seg. edge_objects ?P' e = Some seg
          \<and> (is_dashed P seg \<longleftrightarrow>
                e \<in> {(0, 1), (1, 2), (2, 3), (0, 3), (0, 4), (1, 5), (2, 6), (3, 7)})
          \<and> (is_solid P seg \<longleftrightarrow> e \<in> {(4, 5), (5, 6), (6, 7), (4, 7)})"
      using styles unfolding T_def B_def by blast
  qed
qed

text \<open>
  Claim C2, as the code has it.  Let the cube have a side of at least \<open>0.001\<close> and let the
  camera look down the Z axis from above the cube: higher than its top face, and strictly
  inside its footprint (the cube as the visibility test places it, shifted by the group's
  centre).  Then the update marks as hidden the 4 edges of the back face (the face
  \<open>z = min\<close>, \<open>faces ! 0\<close>) and also the 4 lateral edges, 8 edges in all, and marks none of
  the 4 edges of the front face (\<open>z = max\<close>, \<open>faces ! 1\<close>) as hidden: those are solid.
\<close>

theorem CubeGeometry_top_view:
  assumes "1 / 1000 \<le> L"
    and "dict_get (standard_vertices L) (upper origin_point) = Inr (ax, ay, az)"
    and "ox - ax < cx" "cx < ox - ax + L" "oy - ay < cy" "cy < oy - ay + L" "oz - az + L < cz"
  shows "\<exists>P P'. CubeGeometry_init L origin_point (ox, oy, oz) = Inr P
     \<and> update_dashed_lines P (Some (cx, cy, cz)) = Inr P'
     \<and> set (edges P) = {(0, 1), (1, 2), (2, 3), (0, 3), (0, 4), (1, 5), (2, 6), (3, 7),
                          (4, 5), (5, 6), (6, 7), (4, 7)}
     \<and> set (face_edges (faces P ! 0)) = {(0, 1), (1, 2), (2, 3), (0, 3)}
     \<and> set (face_edges (faces P ! 1)) = {(4, 5), (5, 6), (6, 7), (4, 7)}
     \<and> (\<forall>e \<in> set (edges P). \<exists>seg. edge_objects P' e = Some seg
          \<and> (is_dashed P seg \<longleftrightarrow>
                e \<in> {(0, 1), (1, 2), (2, 3), (0, 3), (0, 4), (1, 5), (2, 6), (3, 7)})
          \<and> (is_solid P seg \<longleftrightarrow> e \<in> {(4, 5), (5, 6), (6, 7), (4, 7)}))"
  using assms by (rule cube_update)

lemma origin_A: "dict_get (standard_vertices L) (upper ''A'') = Inr (0, 0, 0)"
  by (simp add: dict_get_def standard_vertices_def upper_def upper_char_def)

text \<open>
  The cube of side 2 at origin \<open>A\<close>, with the group's centre at \<open>(1, 1, 1)\<close>, seen from
  \<open>(2, 2, 10)\<close>: the back edge \<open>(0, 1)\<close> is hidden and the front edge \<open>(4, 5)\<close> is solid.
\<close>

theorem CubeGeometry_top_view_witness:
  "\<exists>P P' seg seg'. CubeGeometry_init 2 ''A'' (1, 1, 1) = Inr P
     \<and> update_dashed_lines P (Some (2, 2, 10)) = Inr P'
     \<and> edge_objects P' (0, 1) = Some seg \<and> is_dashed P seg
     \<and> edge_objects P' (4, 5) = Some seg' \<and> is_solid P seg'"
proof -
  have L: "(1::real) / 1000 \<le> 2" by simp
  have c: "(1::real) - 0 < 2" "(2::real) < 1 - 0 + 2" "(1::real) - 0 + 2 < 10" by simp_all
  from CubeGeometry_top_view [OF L origin_A c(1) c(2) c(1) c(2) c(3)]
  obtain P where "\<exists>P'. CubeGeometry_init 2 ''A'' (1, 1, 1) = Inr P
     \<and> update_dashed_lines P (Some (2, 2, 10)) = Inr P'
     \<and> set (edges P) = {(0, 1), (1, 2), (2, 3), (0, 3), (0, 4), (1, 5), (2, 6), (3, 7),
                          (4, 5), (5, 6), (6, 7), (4, 7)}
     \<and> set (face_edges (faces P ! 0)) = {(0, 1), (1, 2), (2, 3), (0, 3)}
     \<and> set (face_edges (faces P ! 1)) = {(4, 5), (5, 6), (6, 7), (4, 7)}
     \<and> (\<forall>e \<in> set (edges P). \<exists>seg. edge_objects P' e = Some seg
          \<and> (is_dashed P seg \<longleftrightarrow>
                e \<in> {(0, 1), (1, 2), (2, 3), (0, 3), (0, 4), (1, 5), (2, 6), (3, 7)})
          \<and> (is_solid P seg \<longleftrightarrow> e \<in> {(4, 5), (5, 6), (6, 7), (4, 7)}))" ..
  then obtain P' where big: "CubeGeometry_init 2 ''A'' (1, 1, 1) = Inr P
     \<and> update_dashed_lines P (Some (2, 2, 10)) = Inr P'
     \<and> set (edges P) = {(0, 1), (1, 2), (2, 3), (0, 3), (0, 4), (1, 5), (2, 6), (3, 7),
                          (4, 5), (5, 6), (6, 7), (4, 7)}
     \<and> set (face_edges (faces P ! 0)) = {(0, 1), (1, 2), (2, 3), (0, 3)}
     \<and> set (face_edges (faces P ! 1)) = {(4, 5), (5, 6), (6, 7), (4, 7)}
     \<and> (\<forall>e \<in> set (edges P). \<exists>seg. edge_objects P' e = Some seg
          \<and> (is_dashed P seg \<longleftrightarrow>
                e \<in> {(0, 1), (1, 2), (2, 3), (0, 3), (0, 4), (1, 5), (2, 6), (3, 7)})
          \<and> (is_solid P seg \<longleftrightarrow> e \<in> {(4, 5), (5, 6), (6, 7), (4, 7)}))" ..
  note P = big [THEN conjunct1] big [THEN conjunct2, THEN conjunct1]
    big [THEN conjunct2, THEN conjunct2, THEN conjunct1]
    big [THEN conjunct2, THEN conjunct2, THEN conjunct2, THEN conjunct2, THEN conjunct2]
  have in1: "(0, 1) \<in> set (edges P)" and in2: "(4, 5) \<in> set (edges P)"
    unfolding P(3) by simp_all
  from bspec [OF P(4) in1] obtain seg where seg: "edge_objects P' (0, 1) = Some seg"
    "is_dashed P seg \<longleftrightarrow>
       (0, 1) \<in> {(0, 1), (1, 2), (2, 3), (0, 3), (0, 4), (1, 5), (2, 6), (3, 7 :: int)}"
    by blast
  from bspec [OF P(4) in2] obtain seg' where seg': "edge_objects P' (4, 5) = Some seg'"
    "is_solid P seg' \<longleftrightarrow> (4, 5) \<in> {(4, 5), (5, 6), (6, 7), (4, 7 :: int)}"
    by blast
  from seg(2) have "is_dashed P seg" by simp
  moreover from seg'(2) have "is_solid P seg'" by simp
  ultimately show ?thesis using P(1,2) seg(1) seg'(1) by blast
qed

text \<open>
  Claim C2 as stated (exactly the 4 edges of the back face are hidden) fails: for the same
  cube and camera the lateral edge \<open>(0, 4)\<close>, which is no edge of the back face, is hidden
  too, and 8 edges are hidden in all.
\<close>

theorem CubeGeometry_top_view_counterexample:
  "\<exists>P P' seg. CubeGeometry_init 2 ''A'' (1, 1, 1) = Inr P
     \<and> update_dashed_lines P (Some (2, 2, 10)) = Inr P'
     \<and> set (face_edges (faces P ! 0)) = {(0, 1), (1, 2), (2, 3), (0, 3)}
     \<and> (0, 4) \<in> set (edges P) \<and> (0, 4) \<notin> set (face_edges (faces P ! 0))
     \<and> edge_objects P' (0, 4) = Some seg \<and> is_dashed P seg
     \<and> card {e \<in> set (edges P). \<exists>s. edge_objects P' e = Some s \<and> is_dashed P s} = 8"
proof -
  have L: "(1::real) / 1000 \<le> 2" by simp
  have c: "(1::real) - 0 < 2" "(2::real) < 1 - 0 + 2" "(1::real) - 0 + 2 < 10" by simp_all
  from cube_update [OF L origin_A c(1) c(2) c(1) c(2) c(3)]
  obtain P where "\<exists>P'. CubeGeometry_init 2 ''A'' (1, 1, 1) = Inr P
     \<and> update_dashed_lines P (Some (2, 2, 10)) = Inr P'
     \<and> set (edges P) = {(0, 1), (1, 2), (2, 3), (0, 3), (0, 4), (1, 5), (2, 6), (3, 7),
                          (4, 5), (5, 6), (6, 7), (4, 7)}
     \<and> set (face_edges (faces P ! 0)) = {(0, 1), (1, 2), (2, 3), (0, 3)}
     \<and> set (face_edges (faces P ! 1)) = {(4, 5), (5, 6), (6, 7), (4, 7)}
     \<and> (\<forall>e \<in> set (edges P). \<exists>seg. edge_objects P' e = Some seg
          \<and> (is_dashed P seg \<longleftrightarrow>
                e \<in> {(0, 1), (1, 2), (2, 3), (0, 3), (0, 4), (1, 5), (2, 6), (3, 7)})
          \<and> (is_solid P seg \<longleftrightarrow> e \<in> {(4, 5), (5, 6), (6, 7), (4, 7)}))" ..
  then obtain P' where big: "CubeGeometry_init 2 ''A'' (1, 1, 1) = Inr P
     \<and> update_dashed_lines P (Some (2, 2, 10)) = Inr P'
     \<and> set (edges P) = {(0, 1), (1, 2), (2, 3), (0, 3), (0, 4), (1, 5), (2, 6), (3, 7),
                          (4, 5), (5, 6), (6, 7), (4, 7)}
     \<and> set (face_edges (faces P ! 0)) = {(0, 1), (1, 2), (2, 3), (0, 3)}
     \<and> set (face_edges (faces P ! 1)) = {(4, 5), (5, 6), (6, 7), (4, 7)}
     \<and> (\<forall>e \<in> set (edges P). \<exists>seg. edge_objects P' e = Some seg
          \<and> (is_dashed P seg \<longleftrightarrow>
                e \<in> {(0, 1), (1, 2), (2, 3), (0, 3), (0, 4), (1, 5), (2, 6), (3, 7)})
          \<and> (is_solid P seg \<longleftrightarrow> e \<in> {(4, 5), (5, 6), (6, 7), (4, 7)}))" ..
  note P = big [THEN conjunct1] big [THEN conjunct2, THEN conjunct1]
    big [THEN conjunct2, THEN conjunct2, THEN conjunct1]
    big [THEN conjunct2, THEN conjunct2, THEN conjunct2, THEN conjunct1]
    big [THEN conjunct2, THEN conjunct2, THEN conjunct2, THEN conjunct2, THEN conjunct2]
  have in4: "(0, 4) \<in> set (edges P)" unfolding P(3) by simp
  from bspec [OF P(5) in4] obtain seg where seg0: "edge_objects P' (0, 4) = Some seg"
    "is_dashed P seg \<longleftrightarrow>
       (0, 4) \<in> {(0, 1), (1, 2), (2, 3), (0, 3), (0, 4), (1, 5), (2, 6), (3, 7 :: int)}"
    by blast
  from seg0(2) have "is_dashed P seg" by simp
  note seg = seg0(1) this
  define B :: "edge set" where "B = {(0, 1), (1, 2), (2, 3), (0, 3), (0, 4), (1, 5), (2, 6), (3, 7)}"
  have sub: "B \<subseteq> set (edges P)" unfolding P(3) B_def by blast
  define T :: "edge set" where "T = {(4, 5), (5, 6), (6, 7), (4, 7)}"
  note st0 = P(5) [folded B_def T_def]
  have st: "\<forall>e \<in> set (edges P). \<exists>seg. edge_objects P' e = Some seg \<and> (is_dashed P seg \<longleftrightarrow> e \<in> B)"
    using st0 by blast
  have "{e \<in> set (edges P). \<exists>s. edge_objects P' e = Some s \<and> is_dashed P s} = B" (is "?D = _")
  proof (intro set_eqI iffI)
    fix e assume "e \<in> ?D"
    then obtain s where s: "e \<in> set (edges P)" "edge_objects P' e = Some s" "is_dashed P s" by blast
    from bspec [OF st s(1)] obtain seg where "edge_objects P' e = Some seg" "is_dashed P seg \<longleftrightarrow> e \<in> B"
      by blast
    with s show "e \<in> B" by simp
  next
    fix e assume e: "e \<in> B"
    with sub have "e \<in> set (edges P)" by blast
    with bspec [OF st this] e show "e \<in> ?D" by blast
  qed
  then have "?D = {(0, 1), (1, 2), (2, 3), (0, 3), (0, 4), (1, 5), (2, 6), (3, 7)}"
    unfolding B_def .
  then have "card ?D = 8" by simp
  moreover have "(0, 4) \<notin> set (face_edges (faces P ! 0))" unfolding P(4) by simp
  ultimately show ?thesis using P(1,2,4) in4 seg by blast
qed

text \<open>Whatever the viewpoint, the hidden edges of a cube are never just the four edges of one face.\<close>

lemma cube_hidden_never_one_face:
  assumes L: "1 / 1000 \<le> L"
    and origin: "dict_get (standard_vertices L) (upper origin_point) = Inr (ax, ay, az)"
  shows "\<exists>P P'. CubeGeometry_init L origin_point (ox, oy, oz) = Inr P
     \<and> update_dashed_lines P (Some (cx, cy, cz)) = Inr P'
     \<and> length (faces P) = 6
     \<and> (\<forall>k < 6. {e \<in> set (edges P). \<exists>s. edge_objects P' e = Some s \<and> is_dashed P s}
                   \<noteq> set (face_edges (faces P ! k)))"
proof -
  have c: "correct_face_normals (cube_vertices L (- ax, - ay, - az)) cube_faces
      = Inr corrected_cube_faces" using L by (rule cube_correct_face_normals)
  from cube_init [OF origin c] obtain P where P: "CubeGeometry_init L origin_point (ox, oy, oz) = Inr P"
    "PolyhedronBase_init (cube_vertices L (- ax, - ay, - az)) corrected_cube_faces
       WHITE YELLOW GRAY 4 (ox, oy, oz) = Inr P" by blast
  note f = init_fields [OF P(2)]
  have wf: "well_formed P" using P(2) by (rule init_well_formed)
  note vis = cube_visibility [OF L f(1) f(2) f(7), of cx cy cz]
  define h where "h = (\<lambda>k. is_face_visible P k (cx, cy, cz) = Inr False)"
  define H where "H = (\<lambda>e. \<forall>k < length (faces P). e \<in> set (face_edges (faces P ! k)) \<longrightarrow> h k)"
  have len6: "length corrected_cube_faces = 6" by simp
  have Hs: "H (0, 1) \<longleftrightarrow> h 0 \<and> h 2" "H (1, 2) \<longleftrightarrow> h 0 \<and> h 3" "H (2, 3) \<longleftrightarrow> h 0 \<and> h 4"
    "H (0, 3) \<longleftrightarrow> h 0 \<and> h 5" "H (4, 5) \<longleftrightarrow> h 1 \<and> h 2" "H (5, 6) \<longleftrightarrow> h 1 \<and> h 3"
    "H (1, 5) \<longleftrightarrow> h 2 \<and> h 3" "H (2, 6) \<longleftrightarrow> h 3 \<and> h 4" "H (3, 7) \<longleftrightarrow> h 4 \<and> h 5"
    "H (0, 4) \<longleftrightarrow> h 2 \<and> h 5"
    unfolding H_def f(2) len6 all_less_6 by (auto simp: face_edges_cube)
  have es: "set (edges P) = {(0, 1), (1, 2), (2, 3), (0, 3), (0, 4), (1, 5), (2, 6), (3, 7),
                          (4, 5), (5, 6), (6, 7), (4, 7)}"
    using build_edge_topology_props(1) [OF f(8)] cube_edges by simp
  from well_formed_update [OF wf, of "(cx, cy, cz)" "Some (cx, cy, cz)"] obtain objs'
    where u: "update_dashed_lines P (Some (cx, cy, cz)) = Inr (P\<lparr>edge_objects := objs'\<rparr>)"
      and each: "\<forall>e \<in> set (edges P). \<exists>seg. edge_objects P e = Some seg
          \<and> objs' e = Some (if H e then dashed_style P seg else solid_style P seg)"
    unfolding H_def h_def by auto
  define D where "D = {e \<in> set (edges P). \<exists>s. objs' e = Some s \<and> is_dashed P s}"
  have D: "e \<in> D \<longleftrightarrow> H e" if "e \<in> set (edges P)" for e
  proof -
    from bspec [OF each that] obtain seg
      where "objs' e = Some (if H e then dashed_style P seg else solid_style P seg)" by blast
    then show ?thesis using that by (cases "H e") (simp_all add: D_def style_facts)
  qed
  have mem: "(0, 1) \<in> set (edges P)" "(1, 2) \<in> set (edges P)" "(2, 3) \<in> set (edges P)"
    "(0, 3) \<in> set (edges P)" "(4, 5) \<in> set (edges P)" "(5, 6) \<in> set (edges P)"
    "(1, 5) \<in> set (edges P)" "(2, 6) \<in> set (edges P)" "(3, 7) \<in> set (edges P)"
    "(0, 4) \<in> set (edges P)"
    unfolding es by simp_all
  note Dm = D [OF mem(1)] D [OF mem(2)] D [OF mem(3)] D [OF mem(4)] D [OF mem(5)] D [OF mem(6)]
    D [OF mem(7)] D [OF mem(8)] D [OF mem(9)] D [OF mem(10)]
  have fe: "set (face_edges (faces P ! 0)) = {(0, 1), (1, 2), (2, 3), (0, 3)}"
    "set (face_edges (faces P ! 1)) = {(4, 5), (5, 6), (6, 7), (4, 7)}"
    "set (face_edges (faces P ! 2)) = {(0, 1), (1, 5), (4, 5), (0, 4)}"
    "set (face_edges (faces P ! 3)) = {(1, 2), (2, 6), (5, 6), (1, 5)}"
    "set (face_edges (faces P ! 4)) = {(2, 3), (3, 7), (6, 7), (2, 6)}"
    "set (face_edges (faces P ! 5)) = {(0, 3), (0, 4), (4, 7), (3, 7)}"
    unfolding f(2) by (auto simp: face_edges_cube)
  have n0: "D \<noteq> set (face_edges (faces P ! 0))"
  proof
    assume a: "D = set (face_edges (faces P ! 0))"
    then have "(0, 1) \<in> D" "(1, 2) \<in> D" "(1, 5) \<notin> D" unfolding fe by simp_all
    then show False unfolding Dm Hs by blast
  qed
  have n1: "D \<noteq> set (face_edges (faces P ! 1))"
  proof
    assume a: "D = set (face_edges (faces P ! 1))"
    then have "(4, 5) \<in> D" "(5, 6) \<in> D" "(1, 5) \<notin> D" unfolding fe by simp_all
    then show False unfolding Dm Hs by blast
  qed
  have n2: "D \<noteq> set (face_edges (faces P ! 2))"
  proof
    assume a: "D = set (face_edges (faces P ! 2))"
    then have "(0, 1) \<in> D" "(1, 5) \<in> D" "(1, 2) \<notin> D" unfolding fe by simp_all
    then show False unfolding Dm Hs by blast
  qed
  have n3: "D \<noteq> set (face_edges (faces P ! 3))"
  proof
    assume a: "D = set (face_edges (faces P ! 3))"
    then have "(1, 2) \<in> D" "(2, 6) \<in> D" "(2, 3) \<notin> D" unfolding fe by simp_all
    then show False unfolding Dm Hs by blast
  qed
  have n4: "D \<noteq> set (face_edges (faces P ! 4))"
  proof
    assume a: "D = set (face_edges (faces P ! 4))"
    then have "(2, 3) \<in> D" "(3, 7) \<in> D" "(0, 3) \<notin> D" unfolding fe by simp_all
    then show False unfolding Dm Hs by blast
  qed
  have n5: "D \<noteq> set (face_edges (faces P ! 5))"
  proof
    assume a: "D = set (face_edges (faces P ! 5))"
    then have "(0, 3) \<in> D" "(0, 4) \<in> D" "(0, 1) \<notin> D" unfolding fe by simp_all
    then show False unfolding Dm Hs by blast
  qed
  have all: "\<forall>k < 6. D \<noteq> set (face_edges (faces P ! k))"
    unfolding all_less_6 using n0 n1 n2 n3 n4 n5 by blast
  let ?P' = "P\<lparr>edge_objects := objs'\<rparr>"
  have "{e \<in> set (edges P). \<exists>s. edge_objects ?P' e = Some s \<and> is_dashed P s} = D"
    by (simp add: D_def)
  with all have "\<forall>k < 6. {e \<in> set (edges P). \<exists>s. edge_objects ?P' e = Some s \<and> is_dashed P s}
                   \<noteq> set (face_edges (faces P ! k))" by simp
  moreover have "length (faces P) = 6" unfolding f(2) by simp
  ultimately show ?thesis using P(1) u by blast
qed

end
